theory Spec2Isabelle
  imports Complex_Main "HOL-Library.Multiset"
begin

section \<open>Python values\<close>

text \<open>
  The webhook collector (\<^verbatim>\<open>src/app.py\<close>) works on parsed JSON/YAML documents. A Python
  float is a real number or one of the three special values; rounding and overflow of
  IEEE doubles are not part of this model.
\<close>

datatype pyfloat = Finite real | PosInf | NegInf | NaN

datatype pyval =
    PNone
  | PBool bool
  | PInt int
  | PFloat pyfloat
  | PStr string
  | PList "pyval list"
  | PDict "(string \<times> pyval) list"

text \<open>Exceptions the request handler can raise. None of them is caught in \<^verbatim>\<open>app.py\<close>.\<close>

datatype exn =
    TypeError
  | ValueError string
  | KeyError string
  | AttributeError
  | AssertionError
  | StopIteration
  | LibError string

text \<open>\<^verbatim>\<open>bool(x)\<close>, as \<^verbatim>\<open>not partial\<close> and \<^verbatim>\<open>not prev\<close> use it.\<close>

fun truthy :: "pyval \<Rightarrow> bool" where
  "truthy PNone = False"
| "truthy (PBool b) = b"
| "truthy (PInt i) = (i \<noteq> 0)"
| "truthy (PFloat f) = (f \<noteq> Finite 0)"
| "truthy (PStr s) = (s \<noteq> [])"
| "truthy (PList xs) = (xs \<noteq> [])"
| "truthy (PDict kvs) = (kvs \<noteq> [])"

section \<open>Library functions\<close>

text \<open>The three metric classes the handler constructs.\<close>

datatype kind = Gauge | Counter | Info

text \<open>
  \<^verbatim>\<open>re\<close>, \<^verbatim>\<open>json\<close>, \<^verbatim>\<open>jmespath\<close> and \<^verbatim>\<open>prometheus_client\<close> are libraries, not code of
  the repository. What the handler calls of them is a parameter of the model:
  \<^item> \<open>re_search p text\<close>: \<^verbatim>\<open>re.search(p, text)\<close>; \<open>None\<close> for no match, otherwise the
    capture groups of the match in order, \<open>None\<close> for a group that took no part;
  \<^item> \<open>re_match p text\<close>: whether \<^verbatim>\<open>re.match(p, text)\<close> is a match;
  \<^item> \<open>jmespath_search q v\<close>: \<^verbatim>\<open>jmespath.search(q, v, options)\<close>;
  \<^item> \<open>json_dumps v\<close>: \<^verbatim>\<open>json.dumps(v)\<close>;
  \<^item> \<open>py_str v\<close>: \<^verbatim>\<open>str(v)\<close> of a value that is not a string;
  \<^item> \<open>str_to_float s\<close>: \<^verbatim>\<open>float(s)\<close> of a string, \<open>None\<close> where it raises ValueError;
  \<^item> \<open>valid_metric_name\<close>, \<open>valid_label_name\<close>: the name checks of the metric constructors;
  \<^item> \<open>collector_names k n\<close>: the sample names a metric of class \<open>k\<close> and name \<open>n\<close> claims in
    the registry.
\<close>

record env =
  re_search :: "string \<Rightarrow> string \<Rightarrow> exn + string option list option"
  re_match :: "string \<Rightarrow> string \<Rightarrow> exn + bool"
  jmespath_search :: "string \<Rightarrow> pyval \<Rightarrow> exn + pyval"
  json_dumps :: "pyval \<Rightarrow> exn + string"
  py_str :: "pyval \<Rightarrow> string"
  str_to_float :: "string \<Rightarrow> pyfloat option"
  valid_metric_name :: "string \<Rightarrow> bool"
  valid_label_name :: "string \<Rightarrow> bool"
  collector_names :: "kind \<Rightarrow> string \<Rightarrow> string list"

text \<open>\<^verbatim>\<open>str(x)\<close>: a string is its own text.\<close>

fun str_of :: "env \<Rightarrow> pyval \<Rightarrow> string" where
  "str_of E (PStr s) = s"
| "str_of E v = py_str E v"

section \<open>The extractor chains: \<^verbatim>\<open>run_extractor\<close>\<close>

text \<open>\<^verbatim>\<open>s.strip("/")\<close>: every leading and every trailing slash goes.\<close>

definition strip_slashes :: "string \<Rightarrow> string" where
  "strip_slashes s =
     rev (dropWhile (\<lambda>c. c = CHR ''/'') (rev (dropWhile (\<lambda>c. c = CHR ''/'') s)))"

text \<open>\<^verbatim>\<open>isinstance(partial, str) and partial.startswith("/")\<close>\<close>

fun is_regex :: "pyval \<Rightarrow> bool" where
  "is_regex (PStr s) = (case s of [] \<Rightarrow> False | c # _ \<Rightarrow> c = CHR ''/'')"
| "is_regex v = False"

text \<open>
  \<^verbatim>\<open>next(iter(m.groups(default)))\<close> for a match \<open>m\<close>: the first group, the default where
  that group took no part, and StopIteration where the pattern has no group.
\<close>

fun first_group :: "string option list \<Rightarrow> pyval \<Rightarrow> exn + pyval" where
  "first_group [] dflt = Inl StopIteration"
| "first_group (None # gs) dflt = Inr dflt"
| "first_group (Some s # gs) dflt = Inr (PStr s)"

text \<open>
  The body of the inner loop (lines 103--112): one stage \<open>partial\<close> applied to the
  intermediate value \<open>prev\<close>. A search that finds nothing leaves \<^verbatim>\<open>None\<close> in \<open>prev\<close>:
  only a match object is replaced.
\<close>

definition run_partial :: "env \<Rightarrow> pyval \<Rightarrow> pyval \<Rightarrow> pyval \<Rightarrow> exn + pyval" where
  "run_partial E partial prev dflt =
     (if \<not> truthy partial then Inr dflt
      else if is_regex partial then
        (case json_dumps E prev of
           Inl e \<Rightarrow> Inl e
         | Inr text \<Rightarrow>
            (case re_search E (strip_slashes (str_of E partial)) text of
               Inl e \<Rightarrow> Inl e
             | Inr None \<Rightarrow> Inr PNone
             | Inr (Some groups) \<Rightarrow> first_group groups dflt))
      else
        (case jmespath_search E (str_of E partial) prev of
           Inl e \<Rightarrow> Inl e
         | Inr r \<Rightarrow> Inr (if \<not> truthy r then dflt else r)))"

text \<open>The inner loop: the stages of one chain, each fed the result of the one before.\<close>

fun run_chain :: "env \<Rightarrow> pyval list \<Rightarrow> pyval \<Rightarrow> pyval \<Rightarrow> exn + pyval" where
  "run_chain E [] prev dflt = Inr prev"
| "run_chain E (partial # ps) prev dflt =
     (case run_partial E partial prev dflt of
        Inl e \<Rightarrow> Inl e
      | Inr v \<Rightarrow> run_chain E ps v dflt)"

text \<open>\<^verbatim>\<open>if not isinstance(x, list): x = [x]\<close>\<close>

fun as_list :: "pyval \<Rightarrow> pyval list" where
  "as_list (PList xs) = xs"
| "as_list v = [v]"

text \<open>The outer loop: every chain starts from the whole document.\<close>

fun run_chains :: "env \<Rightarrow> pyval list \<Rightarrow> pyval \<Rightarrow> pyval \<Rightarrow> exn + pyval list" where
  "run_chains E [] data dflt = Inr []"
| "run_chains E (extractor # es) data dflt =
     (case run_chain E (as_list extractor) data dflt of
        Inl e \<Rightarrow> Inl e
      | Inr v \<Rightarrow>
         (case run_chains E es data dflt of
            Inl e \<Rightarrow> Inl e
          | Inr vs \<Rightarrow> Inr (v # vs)))"

definition run_extractor :: "env \<Rightarrow> pyval \<Rightarrow> pyval \<Rightarrow> pyval \<Rightarrow> exn + pyval" where
  "run_extractor E extractors data dflt =
     (case run_chains E (as_list extractors) data dflt of
        Inl e \<Rightarrow> Inl e
      | Inr extracted \<Rightarrow>
         Inr (case extracted of [x] \<Rightarrow> x | _ \<Rightarrow> PList extracted))"

section \<open>Metric instances and the registry\<close>

text \<open>
  A metric instance is a Python object shared by the cache entry that holds it and by the
  registry: the heap maps an address to the object, and both hold the address. An address
  is an index into the heap; an object, once made, keeps its address.
\<close>

datatype sample = Num pyfloat | InfoVal "(string \<times> string) list"

record metric =
  m_kind :: kind
  m_name :: string
  m_help :: pyval
  m_labelnames :: "string list"
  m_children :: "(string list \<times> sample) list"

type_synonym addr = nat

text \<open>The dictionary stored in the cache for a metric (lines 220--227). Each one has the
  key \<^verbatim>\<open>"instance"\<close>, so the test of line 65 is true for every stored value.\<close>

record cached =
  c_instance :: addr
  c_name :: string
  c_help :: pyval
  c_type :: pyval
  c_value :: pyfloat
  c_labels :: pyval

text \<open>
  \<^verbatim>\<open>cachetools.TTLCache\<close> with the default size of one per item: the dictionary of values,
  the ordered dictionary of links (its keys, least recently used first) and the linked
  list of links in the order of their last store, each link a key with its expiry time.
  The three hold the same keys. The library is not part of the repository; its operations
  below follow the library's own definitions. An item is live while the clock reads less
  than its expiry time. The clock is a parameter of every operation: the library reads it
  once per operation.
\<close>

record ttlcache =
  maxsize :: nat
  ttl :: real
  data :: "(string \<times> cached) list"
  lru :: "string list"
  chain :: "(string \<times> real) list"

text \<open>The process state: the cache, the registry (each registered collector with the
  sample names it claims) and the heap of metric objects.\<close>

record state =
  metrics_cache :: ttlcache
  registry :: "(addr \<times> string list) list"
  heap :: "metric list"

definition init_state :: "nat \<Rightarrow> real \<Rightarrow> state" where
  "init_state ms t =
     \<lparr>metrics_cache = \<lparr>maxsize = ms, ttl = t, data = [], lru = [], chain = []\<rparr>,
      registry = [], heap = []\<rparr>"

subsection \<open>The registry\<close>

text \<open>
  \<^verbatim>\<open>CollectorRegistry.register\<close> refuses a collector one of whose sample names is taken;
  \<open>names\<close> are the names the new collector claims (the library derives them from its kind
  and name). \<^verbatim>\<open>unregister\<close> raises KeyError for a collector that is not registered.
\<close>

definition registered_names :: "(addr \<times> string list) list \<Rightarrow> string list" where
  "registered_names reg = concat (map snd reg)"

definition register :: "(addr \<times> string list) list \<Rightarrow> addr \<Rightarrow> string list
    \<Rightarrow> exn + (addr \<times> string list) list" where
  "register reg a names =
     (if list_ex (\<lambda>n. n \<in> set (registered_names reg)) names
      then Inl (ValueError ''Duplicated timeseries in CollectorRegistry'')
      else Inr (reg @ [(a, names)]))"

definition unregister :: "(addr \<times> string list) list \<Rightarrow> addr
    \<Rightarrow> exn + (addr \<times> string list) list" where
  "unregister reg a =
     (if a \<in> set (map fst reg) then Inr (filter (\<lambda>r. fst r \<noteq> a) reg)
      else Inl (KeyError ''collector''))"

definition is_registered :: "state \<Rightarrow> addr \<Rightarrow> bool" where
  "is_registered st a = (a \<in> set (map fst (registry st)))"

subsection \<open>The cache of the library\<close>

text \<open>\<^verbatim>\<open>key in cache\<close>: the key has a link that has not expired. Nothing is reordered.\<close>

definition ttl_contains :: "ttlcache \<Rightarrow> real \<Rightarrow> string \<Rightarrow> bool" where
  "ttl_contains c now key =
     (case map_of (chain c) key of None \<Rightarrow> False | Some e \<Rightarrow> now < e)"

definition del_key :: "string \<Rightarrow> (string \<times> 'a) list \<Rightarrow> (string \<times> 'a) list" where
  "del_key key al = filter (\<lambda>kv. fst kv \<noteq> key) al"

text \<open>\<^verbatim>\<open>d[key] = value\<close> on a dictionary: in place, or at the end for a new key.\<close>

fun dict_set :: "'k \<Rightarrow> 'a \<Rightarrow> ('k \<times> 'a) list \<Rightarrow> ('k \<times> 'a) list" where
  "dict_set key v [] = [(key, v)]"
| "dict_set key v ((k, w) # al) =
     (if k = key then (k, v) # al else (k, w) # dict_set key v al)"

text \<open>\<^verbatim>\<open>cache[key]\<close>: the link moves to the end of the ordered dictionary; an expired or
  missing key raises KeyError.\<close>

definition ttl_getitem :: "ttlcache \<Rightarrow> real \<Rightarrow> string \<Rightarrow> (exn + cached) \<times> ttlcache" where
  "ttl_getitem c now key =
     (case map_of (chain c) key of
        None \<Rightarrow> (Inl (KeyError key), c)
      | Some e \<Rightarrow>
         (let c' = c\<lparr>lru := filter (\<lambda>k. k \<noteq> key) (lru c) @ [key]\<rparr> in
          if now < e then
            (case map_of (data c) key of
               None \<Rightarrow> (Inl (KeyError key), c')
             | Some v \<Rightarrow> (Inr v, c'))
          else (Inl (KeyError key), c')))"

text \<open>\<^verbatim>\<open>del cache[key]\<close>: the item and its link go; KeyError when the link had expired.\<close>

definition ttl_delitem :: "ttlcache \<Rightarrow> real \<Rightarrow> string \<Rightarrow> (exn + unit) \<times> ttlcache" where
  "ttl_delitem c now key =
     (case map_of (chain c) key of
        None \<Rightarrow> (Inl (KeyError key), c)
      | Some e \<Rightarrow>
         (let c' = c\<lparr>data := del_key key (data c),
                      lru := filter (\<lambda>k. k \<noteq> key) (lru c),
                      chain := del_key key (chain c)\<rparr> in
          if now < e then (Inr (), c') else (Inl (KeyError key), c')))"

text \<open>\<^verbatim>\<open>cachetools.Cache.pop(key)\<close> with no default, which \<^verbatim>\<open>super().pop(key)\<close> calls.\<close>

definition cache_pop :: "ttlcache \<Rightarrow> real \<Rightarrow> string \<Rightarrow> (exn + cached) \<times> ttlcache" where
  "cache_pop c now key =
     (if ttl_contains c now key then
        (case ttl_getitem c now key of
           (Inl e, c1) \<Rightarrow> (Inl e, c1)
         | (Inr v, c1) \<Rightarrow>
            (case ttl_delitem c1 now key of
               (Inl e, c2) \<Rightarrow> (Inl e, c2)
             | (Inr u, c2) \<Rightarrow> (Inr v, c2)))
      else (Inl (KeyError key), c))"

text \<open>
  \<^verbatim>\<open>TTLCache.expire(time)\<close>: from the head of the linked list, every link whose time has
  come is removed with \<^verbatim>\<open>Cache.__delitem__\<close>, the plain removal of the base class. It does
  not call \<^verbatim>\<open>pop\<close>, so the override of \<^verbatim>\<open>app.py\<close> is not run for an expired item.
\<close>

fun expire_from :: "real \<Rightarrow> (string \<times> real) list \<Rightarrow> ttlcache \<Rightarrow> ttlcache" where
  "expire_from now [] c = c\<lparr>chain := []\<rparr>"
| "expire_from now ((k, e) # ls) c =
     (if now < e then c\<lparr>chain := (k, e) # ls\<rparr>
      else expire_from now ls
             (c\<lparr>data := del_key k (data c), lru := filter (\<lambda>k'. k' \<noteq> k) (lru c)\<rparr>))"

definition ttl_expire :: "ttlcache \<Rightarrow> real \<Rightarrow> ttlcache" where
  "ttl_expire c now = expire_from now (chain c) c"

section \<open>The cache of the application: \<^verbatim>\<open>Cache.pop\<close>\<close>

text \<open>\<^verbatim>\<open>instance.clear()\<close>: the children of the metric are dropped.\<close>

definition clear_metric :: "addr \<Rightarrow> metric list \<Rightarrow> metric list" where
  "clear_metric a h = (if a < length h then h[a := (h ! a)\<lparr>m_children := []\<rparr>] else h)"

text \<open>Lines 63--68: the popped value's instance is cleared and unregistered.\<close>

definition Cache_pop :: "string \<Rightarrow> real \<Rightarrow> state \<Rightarrow> (exn + cached) \<times> state" where
  "Cache_pop key now st =
     (case cache_pop (metrics_cache st) now key of
        (Inl e, c') \<Rightarrow> (Inl e, st\<lparr>metrics_cache := c'\<rparr>)
      | (Inr v, c') \<Rightarrow>
         (let st1 = st\<lparr>metrics_cache := c', heap := clear_metric (c_instance v) (heap st)\<rparr> in
          case unregister (registry st1) (c_instance v) of
            Inl e \<Rightarrow> (Inl e, st1)
          | Inr reg' \<Rightarrow> (Inr v, st1\<lparr>registry := reg'\<rparr>)))"

text \<open>\<^verbatim>\<open>TTLCache.popitem\<close>: after expiry, the least recently used key is popped with
  \<^verbatim>\<open>self.pop\<close>, which is the override above.\<close>

definition popitem :: "real \<Rightarrow> state \<Rightarrow> (exn + string \<times> cached) \<times> state" where
  "popitem now st =
     (let st1 = st\<lparr>metrics_cache := ttl_expire (metrics_cache st) now\<rparr> in
      case lru (metrics_cache st1) of
        [] \<Rightarrow> (Inl (KeyError ''Cache is empty''), st1)
      | key # ks \<Rightarrow>
         (case Cache_pop key now st1 of
            (Inl e, st2) \<Rightarrow> (Inl e, st2)
          | (Inr v, st2) \<Rightarrow> (Inr (key, v), st2)))"

text \<open>
  The loop of \<^verbatim>\<open>Cache.__setitem__\<close> for a new key:
  \<^verbatim>\<open>while self.currsize + size > maxsize: self.popitem()\<close>.
\<close>

lemma length_del_key_le: "length (del_key k al) \<le> length al"
  by (simp add: del_key_def)

lemma length_del_key_less:
  "map_of al k = Some v \<Longrightarrow> length (del_key k al) < length al"
proof -
  assume "map_of al k = Some v"
  then have "(k, v) \<in> set al" by (rule map_of_SomeD)
  then show ?thesis
    unfolding del_key_def using length_filter_less[of "(k, v)" al "\<lambda>kv. fst kv \<noteq> k"] by simp
qed

lemma data_expire_from_le:
  "length (data (expire_from now ls c)) \<le> length (data c)"
proof (induction ls arbitrary: c)
  case Nil
  then show ?case by simp
next
  case (Cons a ls)
  obtain k e where a: "a = (k, e)" by (cases a)
  have "length (data (expire_from now ls
           (c\<lparr>data := del_key k (data c), lru := filter (\<lambda>k'. k' \<noteq> k) (lru c)\<rparr>)))
        \<le> length (del_key k (data c))"
    using Cons.IH[of "c\<lparr>data := del_key k (data c), lru := filter (\<lambda>k'. k' \<noteq> k) (lru c)\<rparr>"]
    by simp
  then show ?case using length_del_key_le[of k "data c"] by (simp add: a)
qed

lemma cache_pop_shrinks:
  assumes "cache_pop c now key = (Inr v, c')"
  shows "length (data c') < length (data c)"
  using assms length_del_key_less[of "data c" key]
  by (auto simp: cache_pop_def ttl_getitem_def ttl_delitem_def Let_def
           split: if_splits option.splits sum.splits prod.splits)

lemma popitem_shrinks:
  assumes "popitem now st = (Inr kv, st')"
  shows "length (data (metrics_cache st')) < length (data (metrics_cache st))"
proof -
  let ?c1 = "ttl_expire (metrics_cache st) now"
  from assms obtain key v c' where
    pop: "cache_pop ?c1 now key = (Inr v, c')" and c': "metrics_cache st' = c'"
    by (auto simp: popitem_def Cache_pop_def Let_def
             split: list.splits sum.splits prod.splits)
  have "length (data c') < length (data ?c1)" using pop by (rule cache_pop_shrinks)
  moreover have "length (data ?c1) \<le> length (data (metrics_cache st))"
    unfolding ttl_expire_def by (rule data_expire_from_le)
  ultimately show ?thesis using c' by simp
qed

function evict_loop :: "real \<Rightarrow> state \<Rightarrow> (exn + unit) \<times> state" where
  "evict_loop now st =
     (if length (data (metrics_cache st)) + 1 > maxsize (metrics_cache st) then
        (case popitem now st of
           (Inl e, st') \<Rightarrow> (Inl e, st')
         | (Inr kv, st') \<Rightarrow> evict_loop now st')
      else (Inr (), st))"
  by pat_completeness auto
termination
proof (relation "measure (\<lambda>(now, st). length (data (metrics_cache st)))", goal_cases)
  case 1
  show ?case by simp
next
  case (2 now st x st' kv)
  then have "popitem now st = (Inr kv, st')" by simp
  then show ?case using popitem_shrinks by simp
qed

text \<open>
  \<^verbatim>\<open>cache[key] = value\<close> (\<^verbatim>\<open>TTLCache.__setitem__\<close>): expired items are removed, room is
  made for a new key, the value is stored, and the key's link moves to the end of both
  orders with the expiry time \<open>now + ttl\<close>.
\<close>

definition Cache_setitem :: "string \<Rightarrow> cached \<Rightarrow> real \<Rightarrow> state \<Rightarrow> (exn + unit) \<times> state" where
  "Cache_setitem key v now st =
     (let st1 = st\<lparr>metrics_cache := ttl_expire (metrics_cache st) now\<rparr> in
      if 1 > maxsize (metrics_cache st1) then (Inl (ValueError ''value too large''), st1)
      else
        (case (if key \<in> set (map fst (data (metrics_cache st1))) then (Inr (), st1)
               else evict_loop now st1) of
           (Inl e, st2) \<Rightarrow> (Inl e, st2)
         | (Inr u, st2) \<Rightarrow>
            (let c = metrics_cache st2 in
             (Inr (), st2\<lparr>metrics_cache :=
                c\<lparr>data := dict_set key v (data c),
                  lru := filter (\<lambda>k. k \<noteq> key) (lru c) @ [key],
                  chain := del_key key (chain c) @ [(key, now + ttl c)]\<rparr>\<rparr>))))"

section \<open>Creating and updating a metric: \<^verbatim>\<open>setup_metric\<close>\<close>

definition child_init :: "kind \<Rightarrow> sample" where
  "child_init k = (case k of Info \<Rightarrow> InfoVal [] | Gauge \<Rightarrow> Num (Finite 0) | Counter \<Rightarrow> Num (Finite 0))"

text \<open>
  The constructor \<^verbatim>\<open>Gauge(metric_name, help, labelnames=label_keys, registry=registry)\<close>
  and its two siblings: the names are checked, and the new object registers itself. An
  object that could not be registered is dropped.
\<close>

definition new_metric :: "env \<Rightarrow> kind \<Rightarrow> string \<Rightarrow> pyval \<Rightarrow> string list \<Rightarrow> state
    \<Rightarrow> (exn + addr) \<times> state" where
  "new_metric E k metric_name help label_keys st =
     (if valid_metric_name E metric_name \<and> list_all (valid_label_name E) label_keys then
        (case register (registry st) (length (heap st)) (collector_names E k metric_name) of
           Inl e \<Rightarrow> (Inl e, st)
         | Inr reg' \<Rightarrow>
            (Inr (length (heap st)),
             st\<lparr>registry := reg',
                heap := heap st @ [\<lparr>m_kind = k, m_name = metric_name, m_help = help,
                                    m_labelnames = label_keys, m_children = []\<rparr>]\<rparr>))
      else (Inl (ValueError ''Invalid metric or label name''), st))"

text \<open>
  \<^verbatim>\<open>c.labels(**labels)\<close>: the keyword names must be the metric's label names (compared
  sorted); the child for the label values, each turned to text, is made when it is new.
  The result is the key of the child and the metric with that child.
\<close>

definition label_values :: "env \<Rightarrow> (string \<times> pyval) list \<Rightarrow> string list \<Rightarrow> string list" where
  "label_values E kw names =
     map (\<lambda>l. case map_of kw l of None \<Rightarrow> [] | Some v \<Rightarrow> str_of E v) names"

definition metric_labels :: "env \<Rightarrow> (string \<times> pyval) list \<Rightarrow> metric
    \<Rightarrow> exn + string list \<times> metric" where
  "metric_labels E kw m =
     (if m_labelnames m = [] then Inl (ValueError ''No label names were set'')
      else if kw = [] then Inl (ValueError ''Incorrect label count'')
      else if mset (map fst kw) = mset (m_labelnames m) then
        (let lv = label_values E kw (m_labelnames m) in
         Inr (lv, if lv \<in> set (map fst (m_children m)) then m
                  else m\<lparr>m_children := m_children m @ [(lv, child_init (m_kind m))]\<rparr>))
      else Inl (ValueError ''Incorrect label names''))"

text \<open>\<^verbatim>\<open>amount < 0\<close> and \<^verbatim>\<open>a + b\<close> on floats.\<close>

fun is_negative :: "pyfloat \<Rightarrow> bool" where
  "is_negative (Finite r) = (r < 0)"
| "is_negative NegInf = True"
| "is_negative PosInf = False"
| "is_negative NaN = False"

fun fadd :: "pyfloat \<Rightarrow> pyfloat \<Rightarrow> pyfloat" where
  "fadd (Finite a) (Finite b) = Finite (a + b)"
| "fadd NaN y = NaN"
| "fadd x NaN = NaN"
| "fadd PosInf NegInf = NaN"
| "fadd NegInf PosInf = NaN"
| "fadd PosInf y = PosInf"
| "fadd NegInf y = NegInf"
| "fadd (Finite a) y = y"

text \<open>The value of the child \<open>lv\<close> of a gauge or counter.\<close>

definition child_value :: "metric \<Rightarrow> string list \<Rightarrow> pyfloat option" where
  "child_value m lv =
     (case map_of (m_children m) lv of Some (Num x) \<Rightarrow> Some x | Some (InfoVal i) \<Rightarrow> None | None \<Rightarrow> None)"

text \<open>
  The three updates, on the child \<open>lv\<close> of the metric \<open>m\<close>. \<^verbatim>\<open>set\<close> exists on a gauge only,
  \<^verbatim>\<open>inc\<close> on a gauge and on a counter, where a negative amount raises ValueError.
  \<^verbatim>\<open>info(value)\<close> is called with the float of line 199: another class has no such method,
  and \<^verbatim>\<open>Info.info\<close> asks its argument for \<^verbatim>\<open>keys()\<close>; both raise AttributeError.
\<close>

definition child_set :: "pyfloat \<Rightarrow> string list \<Rightarrow> metric \<Rightarrow> exn + metric" where
  "child_set v lv m =
     (case m_kind m of
        Gauge \<Rightarrow> Inr (m\<lparr>m_children := dict_set lv (Num v) (m_children m)\<rparr>)
      | Counter \<Rightarrow> Inl AttributeError
      | Info \<Rightarrow> Inl AttributeError)"

definition add_to_child :: "pyfloat \<Rightarrow> string list \<Rightarrow> metric \<Rightarrow> exn + metric" where
  "add_to_child v lv m =
     (case child_value m lv of
        None \<Rightarrow> Inl AttributeError
      | Some x \<Rightarrow> Inr (m\<lparr>m_children := dict_set lv (Num (fadd x v)) (m_children m)\<rparr>))"

definition child_inc :: "pyfloat \<Rightarrow> string list \<Rightarrow> metric \<Rightarrow> exn + metric" where
  "child_inc v lv m =
     (case m_kind m of
        Gauge \<Rightarrow> add_to_child v lv m
      | Counter \<Rightarrow>
         (if is_negative v
          then Inl (ValueError ''Counters can only be incremented by non-negative amounts.'')
          else add_to_child v lv m)
      | Info \<Rightarrow> Inl AttributeError)"

definition child_info :: "pyfloat \<Rightarrow> string list \<Rightarrow> metric \<Rightarrow> exn + metric" where
  "child_info v lv m = Inl AttributeError"

text \<open>\<^verbatim>\<open>c = old_instance or K(...)\<close>: an instance is truthy, so the old one is taken
  whenever there is one, whatever its class and label names.\<close>

definition old_or_new :: "env \<Rightarrow> kind \<Rightarrow> string \<Rightarrow> pyval \<Rightarrow> string list \<Rightarrow> addr option
    \<Rightarrow> state \<Rightarrow> (exn + addr) \<times> state" where
  "old_or_new E k metric_name help label_keys old_instance st =
     (case old_instance of
        Some a \<Rightarrow> (Inr a, st)
      | None \<Rightarrow> new_metric E k metric_name help label_keys st)"

text \<open>\<^verbatim>\<open>c.labels(**labels).update(value)\<close> on the object at address \<open>a\<close>.\<close>

definition update_child :: "env \<Rightarrow> (pyfloat \<Rightarrow> string list \<Rightarrow> metric \<Rightarrow> exn + metric)
    \<Rightarrow> (string \<times> pyval) list \<Rightarrow> pyfloat \<Rightarrow> addr \<Rightarrow> state \<Rightarrow> (exn + addr) \<times> state" where
  "update_child E upd kw v a st =
     (if a < length (heap st) then
        (case metric_labels E kw (heap st ! a) of
           Inl e \<Rightarrow> (Inl e, st)
         | Inr (lv, m1) \<Rightarrow>
            (case upd v lv m1 of
               Inl e \<Rightarrow> (Inl e, st\<lparr>heap := (heap st)[a := m1]\<rparr>)
             | Inr m2 \<Rightarrow> (Inr a, st\<lparr>heap := (heap st)[a := m2]\<rparr>)))
      else (Inl (LibError ''no object at this address''), st))"

definition make_and_update :: "env \<Rightarrow> kind
    \<Rightarrow> (pyfloat \<Rightarrow> string list \<Rightarrow> metric \<Rightarrow> exn + metric)
    \<Rightarrow> string \<Rightarrow> pyval \<Rightarrow> (string \<times> pyval) list \<Rightarrow> pyfloat \<Rightarrow> addr option
    \<Rightarrow> state \<Rightarrow> (exn + addr) \<times> state" where
  "make_and_update E k upd metric_name help kw v old_instance st =
     (case old_or_new E k metric_name help (map fst kw) old_instance st of
        (Inl e, st1) \<Rightarrow> (Inl e, st1)
      | (Inr a, st1) \<Rightarrow> update_child E upd kw v a st1)"

text \<open>
  Lines 118--135. \<open>m_type\<close> must be a string (the assertion); \<open>labels\<close> must have
  \<^verbatim>\<open>items()\<close>, and at least one item for the unpacking of line 121.
\<close>

definition setup_metric :: "env \<Rightarrow> pyval \<Rightarrow> string \<Rightarrow> pyval \<Rightarrow> pyval \<Rightarrow> pyfloat
    \<Rightarrow> addr option \<Rightarrow> state \<Rightarrow> (exn + addr) \<times> state" where
  "setup_metric E m_type metric_name help labels v old_instance st =
     (case m_type of
        PStr t \<Rightarrow>
          (case labels of
             PDict kw \<Rightarrow>
               (if kw = [] then (Inl (ValueError ''not enough values to unpack''), st)
                else if t = ''gauge'' then
                  make_and_update E Gauge child_set metric_name help kw v old_instance st
                else if t = ''counter'' then
                  make_and_update E Counter child_inc metric_name help kw v old_instance st
                else if t = ''info'' then
                  make_and_update E Info child_info metric_name help kw v old_instance st
                else (Inl (ValueError ''metric type {m_type} not supported''), st))
           | _ \<Rightarrow> (Inl AttributeError, st))
      | _ \<Rightarrow> (Inl AssertionError, st))"

section \<open>The request handler: \<^verbatim>\<open>receive_webhook_request\<close>\<close>

text \<open>
  The configuration, as far as the handler reads it. \<^verbatim>\<open>event_handlers\<close> is read with
  \<^verbatim>\<open>config["event_handlers"]\<close>; \<^verbatim>\<open>webhook_basepath\<close> may be absent from the file (line 80
  gives it a default); a handler without \<^verbatim>\<open>extractors\<close> has the empty mapping.
\<close>

record handler =
  event_title :: string
  extractors :: "(string \<times> pyval) list"

record config =
  event_handlers :: "handler list"
  webhook_basepath :: "string option"

datatype http_method = POST | PUT | DELETE

datatype response = Response pyval nat

text \<open>\<^verbatim>\<open>float(x)\<close>\<close>

fun py_float :: "env \<Rightarrow> pyval \<Rightarrow> exn + pyfloat" where
  "py_float E PNone = Inl TypeError"
| "py_float E (PBool b) = Inr (Finite (if b then 1 else 0))"
| "py_float E (PInt i) = Inr (Finite (of_int i))"
| "py_float E (PFloat f) = Inr f"
| "py_float E (PStr s) =
     (case str_to_float E s of
        None \<Rightarrow> Inl (ValueError ''could not convert string to float'')
      | Some f \<Rightarrow> Inr f)"
| "py_float E (PList xs) = Inl TypeError"
| "py_float E (PDict kvs) = Inl TypeError"

text \<open>\<^verbatim>\<open>d.get(key, None)\<close>\<close>

definition dict_get :: "(string \<times> pyval) list \<Rightarrow> string \<Rightarrow> pyval" where
  "dict_get d key = (case map_of d key of None \<Rightarrow> PNone | Some v \<Rightarrow> v)"

text \<open>\<^verbatim>\<open>reduce(lambda a, b: {**a, **b}, labels)\<close>: later keys overwrite earlier ones; an
  empty list and an element that is not a mapping raise TypeError.\<close>

fun merge_dicts :: "pyval \<Rightarrow> pyval \<Rightarrow> exn + pyval" where
  "merge_dicts (PDict a) (PDict b) = Inr (PDict (fold (\<lambda>kv acc. dict_set (fst kv) (snd kv) acc) b a))"
| "merge_dicts a b = Inl TypeError"

fun reduce_from :: "pyval \<Rightarrow> pyval list \<Rightarrow> exn + pyval" where
  "reduce_from acc [] = Inr acc"
| "reduce_from acc (x # xs) =
     (case merge_dicts acc x of Inl e \<Rightarrow> Inl e | Inr acc' \<Rightarrow> reduce_from acc' xs)"

fun reduce_labels :: "pyval list \<Rightarrow> exn + pyval" where
  "reduce_labels [] = Inl TypeError"
| "reduce_labels (x # xs) = reduce_from x xs"

text \<open>Line 171--174: the first handler whose pattern matches the event title.\<close>

fun find_handler :: "env \<Rightarrow> handler list \<Rightarrow> string \<Rightarrow> exn + handler option" where
  "find_handler E [] title = Inr None"
| "find_handler E (c # cs) title =
     (case re_match E (event_title c) title of
        Inl e \<Rightarrow> Inl e
      | Inr b \<Rightarrow> if b then Inr (Some c) else find_handler E cs title)"

text \<open>Lines 178--191: the answer when no handler matches. Both uses of the base path read
  \<^verbatim>\<open>config["webhook_basepath"]\<close>, which raises KeyError when the file does not set it.\<close>

definition not_found_response :: "config \<Rightarrow> exn + response" where
  "not_found_response cfg =
     (case webhook_basepath cfg of
        None \<Rightarrow> Inl (KeyError ''webhook_basepath'')
      | Some bp \<Rightarrow>
         Inr (Response
           (PDict [(''error'', PStr ''not found''),
                   (''webhook_basepath'', PStr bp),
                   (''configured_events'',
                    PList (map (\<lambda>c. PStr (bp @ ''/ + /'' @ event_title c @ ''/''))
                               (event_handlers cfg)))])
           404))"

text \<open>Line 195: what the extractors are run on.\<close>

definition jmespath_data :: "pyval \<Rightarrow> pyval \<Rightarrow> pyval" where
  "jmespath_data body req = PDict [(''data'', body), (''req'', req)]"

definition default_labels :: pyval where
  "default_labels = PDict [(''warn'', PStr ''label extraction failed'')]"

text \<open>Lines 193--208: help, type, value and labels of the metric.\<close>

definition resolve_fields :: "env \<Rightarrow> handler \<Rightarrow> pyval \<Rightarrow> pyval
    \<Rightarrow> exn + pyval \<times> pyval \<times> pyfloat \<times> pyval" where
  "resolve_fields E h body req =
     (let metric_extractors = extractors h; d = jmespath_data body req in
      case run_extractor E (dict_get metric_extractors ''help'') d (PStr ''default help'') of
        Inl e \<Rightarrow> Inl e
      | Inr help \<Rightarrow>
      (case run_extractor E (dict_get metric_extractors ''type'') d (PStr ''gauge'') of
        Inl e \<Rightarrow> Inl e
      | Inr m_type \<Rightarrow>
      (case run_extractor E (dict_get metric_extractors ''value'') d PNone of
        Inl e \<Rightarrow> Inl e
      | Inr raw \<Rightarrow>
      (case py_float E raw of
        Inl e \<Rightarrow> Inl e
      | Inr v \<Rightarrow>
      (case run_extractor E (dict_get metric_extractors ''labels'') d default_labels of
        Inl e \<Rightarrow> Inl e
      | Inr labels \<Rightarrow>
      (case labels of
         PList ls \<Rightarrow>
           (case reduce_labels ls of
              Inl e \<Rightarrow> Inl e
            | Inr merged \<Rightarrow> Inr (help, m_type, v, merged))
       | _ \<Rightarrow> Inr (help, m_type, v, labels)))))))"

text \<open>Lines 210--227: the old instance is looked up, the metric is made or updated, and the
  entry is stored.\<close>

definition store_metric :: "env \<Rightarrow> string \<Rightarrow> pyval \<times> pyval \<times> pyfloat \<times> pyval \<Rightarrow> real
    \<Rightarrow> state \<Rightarrow> (exn + unit) \<times> state" where
  "store_metric E metric_name flds now st =
     (case flds of (help, m_type, v, labels) \<Rightarrow>
      (case (if ttl_contains (metrics_cache st) now metric_name then
               (case ttl_getitem (metrics_cache st) now metric_name of
                  (Inl e, c') \<Rightarrow> (Inl e, st\<lparr>metrics_cache := c'\<rparr>)
                | (Inr entry, c') \<Rightarrow> (Inr (Some (c_instance entry)), st\<lparr>metrics_cache := c'\<rparr>))
             else (Inr None, st)) of
         (Inl e, st1) \<Rightarrow> (Inl e, st1)
       | (Inr old_instance, st1) \<Rightarrow>
          (case setup_metric E m_type metric_name help labels v old_instance st1 of
             (Inl e, st2) \<Rightarrow> (Inl e, st2)
           | (Inr metric_instance, st2) \<Rightarrow>
              Cache_setitem metric_name
                \<lparr>c_instance = metric_instance, c_name = metric_name, c_help = help,
                 c_type = m_type, c_value = v, c_labels = labels\<rparr> now st2)))"

text \<open>
  Lines 146--239. One request is served at one reading \<open>now\<close> of the clock: the time
  that passes between the cache operations of one request is not modelled. The result is
  the response the handler returns, or the exception that leaves it; the state is the
  one the request leaves behind either way. The text file output (\<^verbatim>\<open>write_to_textfile\<close>)
  reads the registry and is left out, and so is the debug print of line 230: printing the
  cache expires items once more, at the reading of the clock at which the store before
  it has already done so.
\<close>

definition receive_webhook_request :: "env \<Rightarrow> config \<Rightarrow> http_method \<Rightarrow> string \<Rightarrow> pyval
    \<Rightarrow> pyval \<Rightarrow> real \<Rightarrow> state \<Rightarrow> (exn + response) \<times> state" where
  "receive_webhook_request E cfg method title body req now st =
     (if method = DELETE then
        (if ttl_contains (metrics_cache st) now title then
           (case Cache_pop title now st of
              (Inl e, st1) \<Rightarrow> (Inl e, st1)
            | (Inr v, st1) \<Rightarrow>
               (Inr (Response (PDict [(''removed_metric'', PStr title)]) 202), st1))
         else (Inr (Response (PDict [(''error'', PStr ''not found'')]) 404), st))
      else
        (case find_handler E (event_handlers cfg) title of
           Inl e \<Rightarrow> (Inl e, st)
         | Inr None \<Rightarrow> (not_found_response cfg, st)
         | Inr (Some h) \<Rightarrow>
            (case resolve_fields E h body req of
               Inl e \<Rightarrow> (Inl e, st)
             | Inr flds \<Rightarrow>
                (case store_metric E title flds now st of
                   (Inl e, st1) \<Rightarrow> (Inl e, st1)
                 | (Inr u, st1) \<Rightarrow> (Inr (Response (PStr []) 200), st1)))))"

text \<open>A request with the time at which it is served, and a sequence of requests served
  one after the other.\<close>

record request =
  r_method :: http_method
  r_title :: string
  r_body :: pyval
  r_attrs :: pyval
  r_time :: real

definition serve1 :: "env \<Rightarrow> config \<Rightarrow> request \<Rightarrow> state \<Rightarrow> (exn + response) \<times> state" where
  "serve1 E cfg rq st =
     receive_webhook_request E cfg (r_method rq) (r_title rq) (r_body rq) (r_attrs rq) (r_time rq) st"

fun serve :: "env \<Rightarrow> config \<Rightarrow> request list \<Rightarrow> state \<Rightarrow> (exn + response) list \<times> state" where
  "serve E cfg [] st = ([], st)"
| "serve E cfg (rq # rqs) st =
     (case serve1 E cfg rq st of
        (r, st1) \<Rightarrow> (case serve E cfg rqs st1 of (rs, st2) \<Rightarrow> (r # rs, st2)))"

section \<open>An instance of the library functions\<close>

text \<open>
  For evaluating the handler on concrete requests, \<open>lib0\<close> implements a fragment of each
  library function, on which it computes what the library does:
  \<^item> patterns of letters, digits and underscores, which match as plain text and have no
    group (for \<^verbatim>\<open>re.match\<close> also behind a leading \<^verbatim>\<open>^\<close>);
  \<^item> JMESPath queries that are identifiers joined by dots: the field of a mapping,
    \<^verbatim>\<open>null\<close> for a missing field or a value that is not a mapping;
  \<^item> \<^verbatim>\<open>json.dumps\<close> of values without floats whose strings need no escape;
  \<^item> \<^verbatim>\<open>str\<close> of \<^verbatim>\<open>None\<close>, booleans and integers;
  \<^item> \<^verbatim>\<open>float\<close> of \<^verbatim>\<open>"nan"\<close>, \<^verbatim>\<open>"inf"\<close>, \<^verbatim>\<open>"-inf"\<close> and of plain decimal numerals;
  \<^item> the classic name rules of \<^verbatim>\<open>prometheus_client\<close> and its sample names.
  Outside the fragment a pattern, a query or a value is answered with \<open>LibError\<close>. The
  general theorems below hold for every instance; \<open>lib0\<close> is only used to run examples.
\<close>

definition word_char :: "char \<Rightarrow> bool" where
  "word_char c =
     (c \<in> set ''abcdefghijklmnopqrstuvwxyzABCDEFGHIJKLMNOPQRSTUVWXYZ0123456789_'')"

definition digit_char :: "char \<Rightarrow> bool" where
  "digit_char c = (c \<in> set ''0123456789'')"

fun starts_with :: "string \<Rightarrow> string \<Rightarrow> bool" where
  "starts_with [] text = True"
| "starts_with (p # ps) [] = False"
| "starts_with (p # ps) (t # ts) = (p = t \<and> starts_with ps ts)"

fun occurs_in :: "string \<Rightarrow> string \<Rightarrow> bool" where
  "occurs_in p [] = (p = [])"
| "occurs_in p (t # ts) = (starts_with p (t # ts) \<or> occurs_in p ts)"

definition re_search0 :: "string \<Rightarrow> string \<Rightarrow> exn + string option list option" where
  "re_search0 p text =
     (if list_all word_char p then Inr (if occurs_in p text then Some [] else None)
      else Inl (LibError ''pattern outside the fragment''))"

definition re_match0 :: "string \<Rightarrow> string \<Rightarrow> exn + bool" where
  "re_match0 p text =
     (let q = (if starts_with ''^'' p then tl p else p) in
      if list_all word_char q then Inr (starts_with q text)
      else Inl (LibError ''pattern outside the fragment''))"

fun split_on :: "char \<Rightarrow> string \<Rightarrow> string list" where
  "split_on d [] = [[]]"
| "split_on d (c # cs) =
     (if c = d then [] # split_on d cs
      else (case split_on d cs of [] \<Rightarrow> [[c]] | w # ws \<Rightarrow> (c # w) # ws))"

definition is_identifier :: "string \<Rightarrow> bool" where
  "is_identifier s =
     (case s of [] \<Rightarrow> False
      | c # cs \<Rightarrow> word_char c \<and> \<not> digit_char c \<and> list_all word_char cs)"

fun get_field :: "string \<Rightarrow> pyval \<Rightarrow> pyval" where
  "get_field k (PDict kvs) = dict_get kvs k"
| "get_field k v = PNone"

definition jmespath0 :: "string \<Rightarrow> pyval \<Rightarrow> exn + pyval" where
  "jmespath0 q v =
     (if list_all is_identifier (split_on CHR ''.'' q)
      then Inr (fold get_field (split_on CHR ''.'' q) v)
      else Inl (LibError ''query outside the fragment''))"

fun show_nat :: "nat \<Rightarrow> string" where
  "show_nat n =
     (if n < 10 then [''0123456789'' ! n]
      else show_nat (n div 10) @ [''0123456789'' ! (n mod 10)])"

definition show_int :: "int \<Rightarrow> string" where
  "show_int i = (if i < 0 then CHR ''-'' # show_nat (nat (- i)) else show_nat (nat i))"

definition plain_char :: "char \<Rightarrow> bool" where
  "plain_char c = (word_char c \<or> c \<in> set '' !#$%&()*+,-./:;<=>?@[]^`{|}~'')"

fun dumpable :: "pyval \<Rightarrow> bool"
  and dumpable_list :: "pyval list \<Rightarrow> bool"
  and dumpable_items :: "(string \<times> pyval) list \<Rightarrow> bool" where
  "dumpable PNone = True"
| "dumpable (PBool b) = True"
| "dumpable (PInt i) = True"
| "dumpable (PFloat f) = False"
| "dumpable (PStr s) = list_all plain_char s"
| "dumpable (PList xs) = dumpable_list xs"
| "dumpable (PDict kvs) = dumpable_items kvs"
| "dumpable_list [] = True"
| "dumpable_list (x # xs) = (dumpable x \<and> dumpable_list xs)"
| "dumpable_items [] = True"
| "dumpable_items ((k, v) # kvs) = (list_all plain_char k \<and> dumpable v \<and> dumpable_items kvs)"

fun dumps :: "pyval \<Rightarrow> string"
  and dumps_list :: "pyval list \<Rightarrow> string"
  and dumps_items :: "(string \<times> pyval) list \<Rightarrow> string" where
  "dumps PNone = ''null''"
| "dumps (PBool b) = (if b then ''true'' else ''false'')"
| "dumps (PInt i) = show_int i"
| "dumps (PFloat f) = []"
| "dumps (PStr s) = [CHR 0x22] @ s @ [CHR 0x22]"
| "dumps (PList xs) = ''['' @ dumps_list xs @ '']''"
| "dumps (PDict kvs) = ''{'' @ dumps_items kvs @ ''}''"
| "dumps_list [] = []"
| "dumps_list (x # xs) = dumps x @ (if xs = [] then [] else '', '' @ dumps_list xs)"
| "dumps_items [] = []"
| "dumps_items ((k, v) # kvs) =
     [CHR 0x22] @ k @ [CHR 0x22] @ '': '' @ dumps v
       @ (if kvs = [] then [] else '', '' @ dumps_items kvs)"

definition json_dumps0 :: "pyval \<Rightarrow> exn + string" where
  "json_dumps0 v =
     (if dumpable v then Inr (dumps v) else Inl (LibError ''value outside the fragment''))"

fun py_str0 :: "pyval \<Rightarrow> string" where
  "py_str0 PNone = ''None''"
| "py_str0 (PBool b) = (if b then ''True'' else ''False'')"
| "py_str0 (PInt i) = show_int i"
| "py_str0 (PStr s) = s"
| "py_str0 v = ''<outside the fragment>''"

fun digits_value :: "string \<Rightarrow> nat \<Rightarrow> nat" where
  "digits_value [] acc = acc"
| "digits_value (c # cs) acc =
     digits_value cs
       (acc * 10 + (case map_of (zip ''0123456789'' [0, 1, 2, 3, 4, 5, 6, 7, 8, 9]) c of
                      None \<Rightarrow> 0 | Some d \<Rightarrow> d))"

definition unsigned_decimal :: "string \<Rightarrow> real option" where
  "unsigned_decimal s =
     (case split_on CHR ''.'' s of
        [w] \<Rightarrow> if w \<noteq> [] \<and> list_all digit_char w then Some (real (digits_value w 0)) else None
      | [w, f] \<Rightarrow>
          if w \<noteq> [] \<and> f \<noteq> [] \<and> list_all digit_char w \<and> list_all digit_char f
          then Some (real (digits_value w 0) + real (digits_value f 0) / 10 ^ length f)
          else None
      | _ \<Rightarrow> None)"

definition str_to_float0 :: "string \<Rightarrow> pyfloat option" where
  "str_to_float0 s =
     (if s = ''nan'' then Some NaN
      else if s = ''inf'' then Some PosInf
      else if s = ''-inf'' then Some NegInf
      else if starts_with ''-'' s then map_option (\<lambda>r. Finite (- r)) (unsigned_decimal (tl s))
      else map_option Finite (unsigned_decimal s))"

definition valid_metric_name0 :: "string \<Rightarrow> bool" where
  "valid_metric_name0 s =
     (case s of [] \<Rightarrow> False
      | c # cs \<Rightarrow> (word_char c \<or> c = CHR '':'') \<and> \<not> digit_char c
                 \<and> list_all (\<lambda>x. word_char x \<or> x = CHR '':'') cs)"

definition valid_label_name0 :: "string \<Rightarrow> bool" where
  "valid_label_name0 s = (is_identifier s \<and> \<not> starts_with ''__'' s)"

definition strip_suffix :: "string \<Rightarrow> string \<Rightarrow> string" where
  "strip_suffix suf s =
     (if starts_with (rev suf) (rev s) then take (length s - length suf) s else s)"

fun collector_names0 :: "kind \<Rightarrow> string \<Rightarrow> string list" where
  "collector_names0 Gauge n = [n]"
| "collector_names0 Counter n =
     [strip_suffix ''_total'' n, strip_suffix ''_total'' n @ ''_total'',
      strip_suffix ''_total'' n @ ''_created'']"
| "collector_names0 Info n = [strip_suffix ''_info'' n, strip_suffix ''_info'' n @ ''_info'']"

definition lib0 :: env where
  "lib0 =
     \<lparr>re_search = re_search0, re_match = re_match0, jmespath_search = jmespath0,
      json_dumps = json_dumps0, py_str = py_str0, str_to_float = str_to_float0,
      valid_metric_name = valid_metric_name0, valid_label_name = valid_label_name0,
      collector_names = collector_names0\<rparr>"

section \<open>Example documents\<close>

text \<open>Request bodies, wrapped as line 195 wraps them, with no request attributes.\<close>

definition doc1 :: pyval where
  "doc1 = jmespath_data (PDict [(''msg'', PStr ''latency (42)ms'')]) (PDict [])"

definition doc2 :: pyval where
  "doc2 = jmespath_data (PDict [(''v'', PInt 5)]) (PDict [])"

definition doc3 :: pyval where
  "doc3 = jmespath_data (PDict [(''v'', PInt 0), (''l'', PDict [])]) (PDict [])"

section \<open>Example configurations and requests\<close>

text \<open>\<open>no_match\<close>: the pattern of a handler was tried on the event title and did not match.\<close>

definition no_match :: "env \<Rightarrow> string \<Rightarrow> handler \<Rightarrow> bool" where
  "no_match E title c = (re_match E (event_title c) title = Inr False)"

definition rule_errors :: handler where
  "rule_errors = \<lparr>event_title = ''^odalogs_error'', extractors = [(''value'', PStr ''data.errors'')]\<rparr>"

definition rule_any :: handler where
  "rule_any = \<lparr>event_title = ''^odalogs'', extractors = [(''value'', PStr ''data.lines'')]\<rparr>"

definition cfg_odalogs :: "string option \<Rightarrow> config" where
  "cfg_odalogs bp = \<lparr>event_handlers = [rule_errors, rule_any], webhook_basepath = bp\<rparr>"

definition rule_v :: handler where
  "rule_v = \<lparr>event_title = ''^m'', extractors = [(''value'', PStr ''data.v'')]\<rparr>"

definition rule_raw :: handler where
  "rule_raw = \<lparr>event_title = ''^m'', extractors = [(''value'', PStr ''v'')]\<rparr>"

definition cfg_v :: config where
  "cfg_v = \<lparr>event_handlers = [rule_v], webhook_basepath = Some ''/webhook''\<rparr>"








definition body_v :: pyval where
  "body_v = PDict [(''v'', PInt 1)]"

definition posted_m1 :: "(exn + response) \<times> state" where
  "posted_m1 = receive_webhook_request lib0 cfg_v POST ''m1'' body_v (PDict []) 0 (init_state 128 600)"

definition posted_m2_late :: "(exn + response) \<times> state" where
  "posted_m2_late = receive_webhook_request lib0 cfg_v POST ''m2'' body_v (PDict []) 700 (snd posted_m1)"

definition posted_m1_again :: "(exn + response) \<times> state" where
  "posted_m1_again =
     receive_webhook_request lib0 cfg_v POST ''m1'' body_v (PDict []) 701 (snd posted_m2_late)"

definition deleted_m1 :: "(exn + response) \<times> state" where
  "deleted_m1 = receive_webhook_request lib0 cfg_v DELETE ''m1'' PNone (PDict []) 1 (snd posted_m1)"

definition posted_m1_small :: "(exn + response) \<times> state" where
  "posted_m1_small = receive_webhook_request lib0 cfg_v POST ''m1'' body_v (PDict []) 0 (init_state 1 600)"

definition posted_m2_small :: "(exn + response) \<times> state" where
  "posted_m2_small =
     receive_webhook_request lib0 cfg_v POST ''m2'' body_v (PDict []) 1 (snd posted_m1_small)"






text \<open>Three keys for a cache of size two.\<close>

definition post_rq :: "string \<Rightarrow> real \<Rightarrow> request" where
  "post_rq k t = \<lparr>r_method = POST, r_title = k, r_body = body_v, r_attrs = PDict [], r_time = t\<rparr>"

definition three_keys :: "request list" where
  "three_keys = [post_rq ''m1'' 0, post_rq ''m2'' 1, post_rq ''m3'' 2]"

section \<open>Definitions for stating the properties\<close>






text \<open>The size bound of the cache.\<close>

definition bounded :: "state \<Rightarrow> bool" where
  "bounded st = (length (data (metrics_cache st)) \<le> maxsize (metrics_cache st))"

text \<open>
  A cache that holds exactly the keys \<open>ks\<close>, least recently used first, stored in that
  order, none of which expires before \<open>lo + T\<close>, the entries holding the instances \<open>insts\<close>.
\<close>

definition cache_filled :: "ttlcache \<Rightarrow> string list \<Rightarrow> addr list \<Rightarrow> real \<Rightarrow> real \<Rightarrow> nat \<Rightarrow> bool" where
  "cache_filled c ks insts lo T ms =
     (map fst (data c) = ks \<and> lru c = ks \<and> map fst (chain c) = ks \<and> distinct ks
      \<and> list_all (\<lambda>e. lo + T \<le> e) (map snd (chain c))
      \<and> map (\<lambda>kv. c_instance (snd kv)) (data c) = insts
      \<and> maxsize c = ms \<and> ttl c = T)"

text \<open>
  The state after inserting distinct keys into an empty cache, one new metric each: the
  cache holds the keys \<open>ks\<close> with the instances \<open>n, n + 1, ...\<close>, which are registered; the
  \<open>n\<close> instances made before them are not.
\<close>

definition filled :: "state \<Rightarrow> string list \<Rightarrow> nat \<Rightarrow> real \<Rightarrow> real \<Rightarrow> nat \<Rightarrow> bool" where
  "filled st ks n lo T ms =
     (cache_filled (metrics_cache st) ks [n..<n + length ks] lo T ms
      \<and> length ks \<le> ms
      \<and> length (heap st) = n + length ks
      \<and> list_all (is_registered st) [n..<n + length ks]
      \<and> list_all (\<lambda>a. \<not> is_registered st a) [0..<n])"

text \<open>A create/update request served in the window \<open>[lo, lo + T)\<close>: with the time to live
  \<open>T\<close>, nothing stored in the window expires in it.\<close>

definition insert_request :: "real \<Rightarrow> real \<Rightarrow> request \<Rightarrow> bool" where
  "insert_request lo T rq = (r_method rq \<noteq> DELETE \<and> lo \<le> r_time rq \<and> r_time rq < lo + T)"

text \<open>The response of an accepted create/update request.\<close>

definition ok200 :: "exn + response" where
  "ok200 = Inr (Response (PStr []) 200)"

section \<open>Properties of the extractor chains\<close>

lemma run_chain_append:
  "run_chain E (xs @ ys) prev dflt =
     (case run_chain E xs prev dflt of Inl e \<Rightarrow> Inl e | Inr v \<Rightarrow> run_chain E ys v dflt)"
  by (induction xs arbitrary: prev) (auto split: sum.splits)

lemma run_partial_falsy: "\<not> truthy p \<Longrightarrow> run_partial E p prev dflt = Inr dflt"
  by (simp add: run_partial_def)

text \<open>
  C4. A regex stage serialises the intermediate value and searches it. The claim says the
  stage yields the default when the pattern does not match or has no capture group, and
  never throws. The code does neither: a search without a match leaves \<^verbatim>\<open>None\<close> (not
  the default) as the stage's result, and a match of a pattern without a group raises
  StopIteration.
\<close>

theorem regex_stage_no_match_no_group:
  assumes "is_regex partial" and "json_dumps E prev = Inr text"
  shows "(re_search E (strip_slashes (str_of E partial)) text = Inr None
            \<longrightarrow> run_partial E partial prev dflt = Inr PNone)
       \<and> (re_search E (strip_slashes (str_of E partial)) text = Inr (Some [])
            \<longrightarrow> run_partial E partial prev dflt = Inl StopIteration)"
proof -
  from assms(1) have "truthy partial" by (cases partial) (auto split: list.splits)
  with assms show ?thesis by (simp add: run_partial_def)
qed

text \<open>
  The stage \<^verbatim>\<open>/zzz/\<close> on the document \<^verbatim>\<open>{"data": {"msg": "latency (42)ms"}, "req": {}}\<close>
  with the default \<^verbatim>\<open>"default help"\<close> gives \<^verbatim>\<open>None\<close>; the stage \<^verbatim>\<open>/msg/\<close> raises.
\<close>

theorem regex_stage_no_match_no_group_witness:
  "is_regex (PStr ''/zzz/'') \<and> is_regex (PStr ''/msg/'')
   \<and> json_dumps lib0 doc1 = Inr (dumps doc1)
   \<and> re_search lib0 (strip_slashes (str_of lib0 (PStr ''/zzz/''))) (dumps doc1) = Inr None
   \<and> re_search lib0 (strip_slashes (str_of lib0 (PStr ''/msg/''))) (dumps doc1) = Inr (Some [])
   \<and> run_partial lib0 (PStr ''/zzz/'') doc1 (PStr ''default help'') = Inr PNone
   \<and> PNone \<noteq> PStr ''default help''
   \<and> run_partial lib0 (PStr ''/msg/'') doc1 (PStr ''default help'') = Inl StopIteration"
proof -
  have r1: "is_regex (PStr ''/zzz/'')" and r2: "is_regex (PStr ''/msg/'')" by simp_all
  have d: "json_dumps lib0 doc1 = Inr (dumps doc1)" by code_simp
  have s1: "re_search lib0 (strip_slashes (str_of lib0 (PStr ''/zzz/''))) (dumps doc1) = Inr None"
    by code_simp
  have s2: "re_search lib0 (strip_slashes (str_of lib0 (PStr ''/msg/''))) (dumps doc1) = Inr (Some [])"
    by code_simp
  from regex_stage_no_match_no_group[OF r1 d, of "PStr ''default help''"] s1
  have c1: "run_partial lib0 (PStr ''/zzz/'') doc1 (PStr ''default help'') = Inr PNone" by blast
  from regex_stage_no_match_no_group[OF r2 d, of "PStr ''default help''"] s2
  have c2: "run_partial lib0 (PStr ''/msg/'') doc1 (PStr ''default help'') = Inl StopIteration"
    by blast
  show ?thesis using r1 r2 d s1 s2 c1 c2 by simp
qed

text \<open>
  C5, as the claim states it, fails: the chain \<^verbatim>\<open>["data", null, "warn"]\<close> for the labels
  does not stop at its falsy entry. The last stage is applied to the default mapping and
  the chain yields the text \<^verbatim>\<open>"label extraction failed"\<close>, which is not the default.
\<close>

theorem falsy_stage_short_circuit_counterexample:
  "\<not> truthy PNone
   \<and> run_extractor lib0 (PList [PList [PStr ''data'', PNone, PStr ''warn'']]) doc2 default_labels
       = Inr (PStr ''label extraction failed'')
   \<and> PStr ''label extraction failed'' \<noteq> default_labels"
  by code_simp

text \<open>
  C5, amended. A falsy stage entry replaces the intermediate value by the default and the
  fold goes on: the stages after it are applied, starting from the default. The result of
  the chain is the default when the falsy entry is the last stage.
\<close>

theorem falsy_stage_continues_with_default:
  assumes "\<not> truthy p" and "run_chain E pre doc dflt = Inr v"
  shows "run_chain E (pre @ p # post) doc dflt = run_chain E post dflt dflt
       \<and> run_chain E (pre @ [p]) doc dflt = Inr dflt"
  using assms by (simp add: run_chain_append run_partial_falsy)

text \<open>The same chain, and the chain that ends at the falsy entry.\<close>

theorem falsy_stage_continues_with_default_witness:
  "\<not> truthy PNone
   \<and> run_chain lib0 [PStr ''data''] doc2 default_labels = Inr (PDict [(''v'', PInt 5)])
   \<and> run_chain lib0 ([PStr ''data''] @ PNone # [PStr ''warn'']) doc2 default_labels
       = run_chain lib0 [PStr ''warn''] default_labels default_labels
   \<and> run_chain lib0 ([PStr ''data''] @ [PNone]) doc2 default_labels = Inr default_labels"
proof -
  have f: "\<not> truthy PNone" by simp
  have p: "run_chain lib0 [PStr ''data''] doc2 default_labels = Inr (PDict [(''v'', PInt 5)])"
    by code_simp
  show ?thesis using f p falsy_stage_continues_with_default[OF f p, of "[PStr ''warn'']"] by simp
qed

text \<open>
  C10. A structured-query stage whose query result is falsy yields the default: this
  holds for \<^verbatim>\<open>None\<close> and equally for \<^verbatim>\<open>False\<close>, zero, the empty string, the empty list
  and the empty mapping, all of which are falsy. So an extracted zero or empty mapping
  gives the same stage result as a failed extraction.
\<close>

theorem query_stage_falsy_result_is_default:
  "(\<not> truthy PNone \<and> \<not> truthy (PBool False) \<and> \<not> truthy (PInt 0) \<and> \<not> truthy (PFloat (Finite 0))
     \<and> \<not> truthy (PStr []) \<and> \<not> truthy (PList []) \<and> \<not> truthy (PDict []))
   \<and> (truthy partial \<and> \<not> is_regex partial
        \<and> jmespath_search E (str_of E partial) prev = Inr r \<and> \<not> truthy r
       \<longrightarrow> run_partial E partial prev dflt = Inr dflt)"
  by (simp add: run_partial_def)

text \<open>
  On the body \<^verbatim>\<open>{"v": 0, "l": {}}\<close> the queries \<^verbatim>\<open>data.v\<close>, \<^verbatim>\<open>data.l\<close> and
  \<^verbatim>\<open>data.missing\<close> find zero, the empty mapping and nothing; each stage yields the default.
\<close>

theorem query_stage_falsy_result_is_default_witness:
  "truthy (PStr ''data.v'') \<and> \<not> is_regex (PStr ''data.v'')
   \<and> jmespath_search lib0 (str_of lib0 (PStr ''data.v'')) doc3 = Inr (PInt 0) \<and> \<not> truthy (PInt 0)
   \<and> run_partial lib0 (PStr ''data.v'') doc3 (PStr ''7'') = Inr (PStr ''7'')
   \<and> jmespath_search lib0 (str_of lib0 (PStr ''data.l'')) doc3 = Inr (PDict [])
   \<and> run_partial lib0 (PStr ''data.l'') doc3 default_labels = Inr default_labels
   \<and> jmespath_search lib0 (str_of lib0 (PStr ''data.missing'')) doc3 = Inr PNone
   \<and> run_partial lib0 (PStr ''data.missing'') doc3 default_labels = Inr default_labels"
proof -
  have a: "truthy (PStr ''data.v'')" "\<not> is_regex (PStr ''data.v'')"
          "truthy (PStr ''data.l'')" "\<not> is_regex (PStr ''data.l'')"
          "truthy (PStr ''data.missing'')" "\<not> is_regex (PStr ''data.missing'')" by simp_all
  have s1: "jmespath_search lib0 (str_of lib0 (PStr ''data.v'')) doc3 = Inr (PInt 0)" by code_simp
  have s2: "jmespath_search lib0 (str_of lib0 (PStr ''data.l'')) doc3 = Inr (PDict [])" by code_simp
  have s3: "jmespath_search lib0 (str_of lib0 (PStr ''data.missing'')) doc3 = Inr PNone"
    by code_simp
  have f: "\<not> truthy (PInt 0)" "\<not> truthy (PDict [])" "\<not> truthy PNone" by simp_all
  from query_stage_falsy_result_is_default[of "PStr ''data.v''" lib0 doc3 "PInt 0" "PStr ''7''"]
    a s1 f
  have c1: "run_partial lib0 (PStr ''data.v'') doc3 (PStr ''7'') = Inr (PStr ''7'')" by blast
  from query_stage_falsy_result_is_default[of "PStr ''data.l''" lib0 doc3 "PDict []" default_labels]
    a s2 f
  have c2: "run_partial lib0 (PStr ''data.l'') doc3 default_labels = Inr default_labels" by blast
  from query_stage_falsy_result_is_default[of "PStr ''data.missing''" lib0 doc3 PNone default_labels]
    a s3 f
  have c3: "run_partial lib0 (PStr ''data.missing'') doc3 default_labels = Inr default_labels"
    by blast
  show ?thesis using a s1 s2 s3 f c1 c2 c3 by simp
qed

section \<open>Properties of the request handler\<close>

lemma find_handler_first:
  assumes "list_all (no_match E title) pre" and "re_match E (event_title c) title = Inr True"
  shows "find_handler E (pre @ c # post) title = Inr (Some c)"
  using assms by (induction pre) (auto simp: no_match_def)

lemma find_handler_none:
  assumes "list_all (no_match E title) cs"
  shows "find_handler E cs title = Inr None"
  using assms by (induction cs) (auto simp: no_match_def)

text \<open>
  C8. The handlers are tried in the order of the configuration and the first whose
  pattern matches is taken, whatever the later ones would do. When none matches, the
  answer is meant to be the 404 response that lists every configured pattern in order; it
  is that response when the configuration sets \<^verbatim>\<open>webhook_basepath\<close>. When it does not
  (line 80 allows that), building the response raises KeyError instead.
\<close>

theorem first_match_wins_not_found:
  assumes "method \<noteq> DELETE"
  shows "(list_all (no_match E title) pre \<and> re_match E (event_title c) title = Inr True
           \<longrightarrow> find_handler E (pre @ c # post) title = Inr (Some c))
       \<and> (list_all (no_match E title) (event_handlers cfg) \<and> webhook_basepath cfg = None
           \<longrightarrow> receive_webhook_request E cfg method title body req now st
                 = (Inl (KeyError ''webhook_basepath''), st))
       \<and> (list_all (no_match E title) (event_handlers cfg) \<and> webhook_basepath cfg = Some bp
           \<longrightarrow> receive_webhook_request E cfg method title body req now st
                 = (Inr (Response
                      (PDict [(''error'', PStr ''not found''), (''webhook_basepath'', PStr bp),
                              (''configured_events'',
                               PList (map (\<lambda>c. PStr (bp @ ''/ + /'' @ event_title c @ ''/''))
                                          (event_handlers cfg)))]) 404), st))"
  using assms
  by (auto simp: find_handler_first find_handler_none receive_webhook_request_def
                 not_found_response_def)

text \<open>
  The rules of the specification's example, \<^verbatim>\<open>^odalogs_error\<close> before \<^verbatim>\<open>^odalogs\<close>: the
  event \<^verbatim>\<open>odalogs_error_1\<close> gets the first. The event \<^verbatim>\<open>other\<close> matches neither: without
  a configured base path the request raises, with one it gets the list.
\<close>

theorem first_match_wins_not_found_witness:
  "POST \<noteq> DELETE
   \<and> list_all (no_match lib0 ''odalogs_error_1'') []
   \<and> re_match lib0 (event_title rule_errors) ''odalogs_error_1'' = Inr True
   \<and> re_match lib0 (event_title rule_any) ''odalogs_error_1'' = Inr True
   \<and> find_handler lib0 ([] @ rule_errors # [rule_any]) ''odalogs_error_1'' = Inr (Some rule_errors)
   \<and> list_all (no_match lib0 ''other'') (event_handlers (cfg_odalogs None))
   \<and> webhook_basepath (cfg_odalogs None) = None
   \<and> receive_webhook_request lib0 (cfg_odalogs None) POST ''other'' (PDict []) (PDict []) 0
        (init_state 128 600) = (Inl (KeyError ''webhook_basepath''), init_state 128 600)
   \<and> webhook_basepath (cfg_odalogs (Some ''/webhook'')) = Some ''/webhook''
   \<and> receive_webhook_request lib0 (cfg_odalogs (Some ''/webhook'')) POST ''other'' (PDict [])
        (PDict []) 0 (init_state 128 600)
       = (Inr (Response
            (PDict [(''error'', PStr ''not found''), (''webhook_basepath'', PStr ''/webhook''),
                    (''configured_events'',
                     PList [PStr ''/webhook/ + /^odalogs_error/'', PStr ''/webhook/ + /^odalogs/''])])
            404), init_state 128 600)"
proof -
  have m: "POST \<noteq> DELETE" by simp
  have a1: "list_all (no_match lib0 ''odalogs_error_1'') []" by simp
  have a2: "re_match lib0 (event_title rule_errors) ''odalogs_error_1'' = Inr True" by code_simp
  have a2': "re_match lib0 (event_title rule_any) ''odalogs_error_1'' = Inr True" by code_simp
  have a3: "list_all (no_match lib0 ''other'') (event_handlers (cfg_odalogs bp))" for bp
    by (simp add: cfg_odalogs_def no_match_def) code_simp
  have a4: "webhook_basepath (cfg_odalogs None) = None" by (simp add: cfg_odalogs_def)
  have a5: "webhook_basepath (cfg_odalogs (Some ''/webhook'')) = Some ''/webhook''"
    by (simp add: cfg_odalogs_def)
  note fm = first_match_wins_not_found[OF m]
  have c1: "find_handler lib0 ([] @ rule_errors # [rule_any]) ''odalogs_error_1'' = Inr (Some rule_errors)"
    using fm[THEN conjunct1, of lib0 "''odalogs_error_1''" "[]" rule_errors "[rule_any]"] a1 a2
    by blast
  have c2: "receive_webhook_request lib0 (cfg_odalogs None) POST ''other'' (PDict []) (PDict []) 0
        (init_state 128 600) = (Inl (KeyError ''webhook_basepath''), init_state 128 600)"
    using fm[THEN conjunct2, THEN conjunct1, of lib0 "''other''" "cfg_odalogs None"] a3 a4
    by blast
  have c3: "receive_webhook_request lib0 (cfg_odalogs (Some ''/webhook'')) POST ''other'' (PDict [])
        (PDict []) 0 (init_state 128 600)
       = (Inr (Response
            (PDict [(''error'', PStr ''not found''), (''webhook_basepath'', PStr ''/webhook''),
                    (''configured_events'',
                     PList (map (\<lambda>c. PStr (''/webhook'' @ ''/ + /'' @ event_title c @ ''/''))
                                (event_handlers (cfg_odalogs (Some ''/webhook'')))))])
            404), init_state 128 600)"
    using fm[THEN conjunct2, THEN conjunct2, of lib0 "''other''" "cfg_odalogs (Some ''/webhook'')"
              "''/webhook''"] a3 a5
    by blast
  have c3': "map (\<lambda>c. PStr (''/webhook'' @ ''/ + /'' @ event_title c @ ''/''))
                                (event_handlers (cfg_odalogs (Some ''/webhook'')))
           = [PStr ''/webhook/ + /^odalogs_error/'', PStr ''/webhook/ + /^odalogs/'']"
    by (simp add: cfg_odalogs_def rule_errors_def rule_any_def)
  show ?thesis using m a1 a2 a2' a3 a4 a5 c1 c2 c3 unfolding c3' by simp
qed

lemma resolve_fields_InrD:
  assumes "resolve_fields E h body req = Inr (help, m_type, v, labels)"
  shows "run_extractor E (dict_get (extractors h) ''help'') (jmespath_data body req) (PStr ''default help'') = Inr help"
    and "run_extractor E (dict_get (extractors h) ''type'') (jmespath_data body req) (PStr ''gauge'') = Inr m_type"
    and "\<exists>raw. run_extractor E (dict_get (extractors h) ''value'') (jmespath_data body req) PNone = Inr raw
            \<and> py_float E raw = Inr v"
    and "\<exists>ls. run_extractor E (dict_get (extractors h) ''labels'') (jmespath_data body req) default_labels = Inr ls
            \<and> (case ls of PList xs \<Rightarrow> reduce_labels xs = Inr labels | _ \<Rightarrow> labels = ls)"
  using assms
  by (auto simp: resolve_fields_def Let_def split: sum.splits pyval.splits)

text \<open>
  C9. Whenever the four fields of a request are resolved, each is what its extractor
  yields on the mapping \<^verbatim>\<open>{"data": body, "req": attributes}\<close>, not on the body. In that
  mapping the body is the field \<^verbatim>\<open>data\<close>; a name other than \<^verbatim>\<open>data\<close> and \<^verbatim>\<open>req\<close> is
  not a field of it, whatever fields the body has.
\<close>

theorem extractors_run_on_wrapper:
  assumes "resolve_fields E h body req = Inr (help, m_type, v, labels)"
  shows "run_extractor E (dict_get (extractors h) ''help'')
           (PDict [(''data'', body), (''req'', req)]) (PStr ''default help'') = Inr help
       \<and> run_extractor E (dict_get (extractors h) ''type'')
           (PDict [(''data'', body), (''req'', req)]) (PStr ''gauge'') = Inr m_type
       \<and> (\<exists>raw. run_extractor E (dict_get (extractors h) ''value'')
                   (PDict [(''data'', body), (''req'', req)]) PNone = Inr raw
                \<and> py_float E raw = Inr v)
       \<and> (\<exists>ls. run_extractor E (dict_get (extractors h) ''labels'')
                   (PDict [(''data'', body), (''req'', req)]) default_labels = Inr ls
                \<and> (case ls of PList xs \<Rightarrow> reduce_labels xs = Inr labels | _ \<Rightarrow> labels = ls))
       \<and> get_field ''data'' (jmespath_data body req) = body
       \<and> get_field ''req'' (jmespath_data body req) = req
       \<and> (k \<noteq> ''data'' \<and> k \<noteq> ''req'' \<longrightarrow> get_field k (jmespath_data body req) = PNone)"
  using resolve_fields_InrD[OF assms]
  by (auto simp: jmespath_data_def dict_get_def)


text \<open>
  For the body \<^verbatim>\<open>{"v": 5}\<close> the query \<^verbatim>\<open>data.v\<close> gives the value 5; the query \<^verbatim>\<open>v\<close>
  finds nothing, and the request fails on \<^verbatim>\<open>float(None)\<close>.
\<close>

theorem extractors_run_on_wrapper_witness:
  "resolve_fields lib0 rule_v (PDict [(''v'', PInt 5)]) (PDict [])
     = Inr (PStr ''default help'', PStr ''gauge'', Finite 5, default_labels)
   \<and> (\<exists>raw. run_extractor lib0 (dict_get (extractors rule_v) ''value'')
                   (PDict [(''data'', PDict [(''v'', PInt 5)]), (''req'', PDict [])]) PNone = Inr raw
                \<and> py_float lib0 raw = Inr (Finite 5))
   \<and> get_field ''data'' (jmespath_data (PDict [(''v'', PInt 5)]) (PDict [])) = PDict [(''v'', PInt 5)]
   \<and> ''v'' \<noteq> ''data'' \<and> ''v'' \<noteq> ''req''
   \<and> get_field ''v'' (jmespath_data (PDict [(''v'', PInt 5)]) (PDict [])) = PNone
   \<and> resolve_fields lib0 rule_raw (PDict [(''v'', PInt 5)]) (PDict []) = Inl TypeError"
proof -
  have r: "resolve_fields lib0 rule_v (PDict [(''v'', PInt 5)]) (PDict [])
     = Inr (PStr ''default help'', PStr ''gauge'', Finite 5, default_labels)"
    by code_simp
  have r2: "resolve_fields lib0 rule_raw (PDict [(''v'', PInt 5)]) (PDict []) = Inl TypeError"
    by code_simp
  from extractors_run_on_wrapper[OF r, of "''v''"] r r2 show ?thesis by simp
qed





section \<open>Properties of the cache and the registry\<close>

lemma map_of_del_key: "map_of (del_key k al) k' = (if k' = k then None else map_of al k')"
  unfolding del_key_def by (induction al) auto


lemma map_fst_dict_set:
  "map fst (dict_set k v al) = (if k \<in> set (map fst al) then map fst al else map fst al @ [k])"
  by (induction al) force+

lemma expire_from_fields [simp]:
  "maxsize (expire_from now ls c) = maxsize c" "ttl (expire_from now ls c) = ttl c"
  by (induction ls arbitrary: c) (auto split: prod.splits)












text \<open>
  C1. An entry that leaves the cache by the size bound or by a DELETE request goes
  through \<^verbatim>\<open>Cache.pop\<close>, which unregisters its instance. An entry that leaves by expiry
  does not: with a time to live of 600, \<^verbatim>\<open>m1\<close> is stored at time 0 and \<^verbatim>\<open>m2\<close> at time
  700. The cache then holds \<^verbatim>\<open>m2\<close> alone, and the instance of \<^verbatim>\<open>m1\<close> is still registered;
  a later request for \<^verbatim>\<open>m1\<close> cannot create its metric again. The last two lines are the
  two other paths: a DELETE at time 1, and a second key in a cache of size one.
\<close>

theorem expired_entry_stays_registered:
  "fst posted_m1 = Inr (Response (PStr []) 200)
   \<and> map (\<lambda>kv. (fst kv, c_instance (snd kv))) (data (metrics_cache (snd posted_m1))) = [(''m1'', 0)]
   \<and> registry (snd posted_m1) = [(0, [''m1''])]
   \<and> fst posted_m2_late = Inr (Response (PStr []) 200)
   \<and> map (\<lambda>kv. (fst kv, c_instance (snd kv))) (data (metrics_cache (snd posted_m2_late)))
       = [(''m2'', 1)]
   \<and> \<not> ttl_contains (metrics_cache (snd posted_m1)) 700 ''m1''
   \<and> registry (snd posted_m2_late) = [(0, [''m1'']), (1, [''m2''])]
   \<and> is_registered (snd posted_m2_late) 0
   \<and> m_name (heap (snd posted_m2_late) ! 0) = ''m1''
   \<and> fst posted_m1_again = Inl (ValueError ''Duplicated timeseries in CollectorRegistry'')
   \<and> fst deleted_m1 = Inr (Response (PDict [(''removed_metric'', PStr ''m1'')]) 202)
   \<and> data (metrics_cache (snd deleted_m1)) = [] \<and> registry (snd deleted_m1) = []
   \<and> fst posted_m2_small = Inr (Response (PStr []) 200)
   \<and> map (\<lambda>kv. (fst kv, c_instance (snd kv))) (data (metrics_cache (snd posted_m2_small)))
       = [(''m2'', 1)]
   \<and> registry (snd posted_m2_small) = [(1, [''m2''])]"
  by code_simp

section \<open>Counters\<close>




lemma evict_loop_room:
  "length (data (metrics_cache st)) < maxsize (metrics_cache st) \<Longrightarrow> evict_loop now st = (Inr (), st)"
  by (subst evict_loop.simps) simp


lemma map_of_del_key_append:
  "map_of (del_key k al @ [(k, x)]) k' = (if k' = k then Some x else map_of al k')"
  by (auto simp: map_add_def map_of_del_key split: option.splits)



lemma Cache_setitem_room:
  assumes "length (data (metrics_cache st)) < maxsize (metrics_cache st)"
  shows "Cache_setitem key v now st =
          (Inr (), st\<lparr>metrics_cache := (ttl_expire (metrics_cache st) now)
              \<lparr>data := dict_set key v (data (ttl_expire (metrics_cache st) now)),
               lru := filter (\<lambda>k. k \<noteq> key) (lru (ttl_expire (metrics_cache st) now)) @ [key],
               chain := del_key key (chain (ttl_expire (metrics_cache st) now))
                          @ [(key, now + ttl (metrics_cache st))]\<rparr>\<rparr>)"
proof -
  let ?c1 = "ttl_expire (metrics_cache st) now"
  let ?st1 = "st\<lparr>metrics_cache := ?c1\<rparr>"
  have le: "length (data ?c1) \<le> length (data (metrics_cache st))"
    unfolding ttl_expire_def by (rule data_expire_from_le)
  have f: "maxsize ?c1 = maxsize (metrics_cache st)" "ttl ?c1 = ttl (metrics_cache st)"
    by (simp_all add: ttl_expire_def)
  have "evict_loop now ?st1 = (Inr (), ?st1)"
    by (rule evict_loop_room) (use le f assms in simp)
  with assms f show ?thesis
    by (simp add: Cache_setitem_def Let_def)
qed








section \<open>The size bound and the eviction of the least recently used entry\<close>

lemma length_dict_set:
  "length (dict_set k v al) = (if k \<in> set (map fst al) then length al else Suc (length al))"
  by (induction al) force+

lemma ttl_expire_shrinks:
  "length (data (ttl_expire c now)) \<le> length (data c)" "maxsize (ttl_expire c now) = maxsize c"
  unfolding ttl_expire_def by (simp_all add: data_expire_from_le)

lemma cache_pop_le:
  assumes "cache_pop c now key = (r, c')"
  shows "length (data c') \<le> length (data c) \<and> maxsize c' = maxsize c"
  using assms length_del_key_le[of key "data c"]
  by (auto simp: cache_pop_def ttl_getitem_def ttl_delitem_def Let_def
           split: if_splits option.splits sum.splits prod.splits)

lemma Cache_pop_le:
  assumes "Cache_pop key now st = (r, st')"
  shows "length (data (metrics_cache st')) \<le> length (data (metrics_cache st))
       \<and> maxsize (metrics_cache st') = maxsize (metrics_cache st)"
proof -
  obtain r1 c1 where p: "cache_pop (metrics_cache st) now key = (r1, c1)"
    by (cases "cache_pop (metrics_cache st) now key")
  from cache_pop_le[OF p] assms p show ?thesis
    by (auto simp: Cache_pop_def Let_def split: sum.splits)
qed

lemma popitem_le:
  assumes "popitem now st = (r, st')"
  shows "length (data (metrics_cache st')) \<le> length (data (metrics_cache st))
       \<and> maxsize (metrics_cache st') = maxsize (metrics_cache st)"
proof -
  let ?st1 = "st\<lparr>metrics_cache := ttl_expire (metrics_cache st) now\<rparr>"
  show ?thesis
  proof (cases "lru (metrics_cache ?st1)")
    case Nil
    with assms show ?thesis using ttl_expire_shrinks[of "metrics_cache st" now]
      by (auto simp: popitem_def Let_def)
  next
    case (Cons key ks)
    obtain r2 st2 where p: "Cache_pop key now ?st1 = (r2, st2)"
      by (cases "Cache_pop key now ?st1")
    from Cache_pop_le[OF p] assms p Cons ttl_expire_shrinks[of "metrics_cache st" now]
    show ?thesis by (auto simp: popitem_def Let_def split: sum.splits)
  qed
qed

lemma evict_loop_le:
  "evict_loop now st = (r, st') \<Longrightarrow>
     length (data (metrics_cache st')) \<le> length (data (metrics_cache st))
     \<and> maxsize (metrics_cache st') = maxsize (metrics_cache st)
     \<and> (r = Inr () \<longrightarrow> length (data (metrics_cache st')) < maxsize (metrics_cache st'))"
proof (induction now st arbitrary: r st' rule: evict_loop.induct)
  case (1 now st)
  show ?case
  proof (cases "length (data (metrics_cache st)) + 1 > maxsize (metrics_cache st)")
    case False
    with "1.prems" show ?thesis by (subst (asm) evict_loop.simps) auto
  next
    case True
    obtain r1 st1 where p: "popitem now st = (r1, st1)" by (cases "popitem now st")
    note le = popitem_le[OF p]
    show ?thesis
    proof (cases r1)
      case (Inl e)
      with "1.prems" True p le show ?thesis by (subst (asm) evict_loop.simps) auto
    next
      case (Inr kv)
      with "1.prems" True p have "evict_loop now st1 = (r, st')"
        by (subst (asm) evict_loop.simps) auto
      from "1.IH"[OF True p[symmetric] _ this] Inr le show ?thesis by auto
    qed
  qed
qed

lemma Cache_setitem_bounded:
  assumes "Cache_setitem key v now st = (r, st')" and "bounded st"
  shows "bounded st' \<and> maxsize (metrics_cache st') = maxsize (metrics_cache st)"
proof -
  let ?c1 = "ttl_expire (metrics_cache st) now"
  let ?st1 = "st\<lparr>metrics_cache := ?c1\<rparr>"
  note e = ttl_expire_shrinks[of "metrics_cache st" now]
  show ?thesis
  proof (cases "1 > maxsize ?c1")
    case True
    with assms e show ?thesis by (auto simp: Cache_setitem_def Let_def bounded_def)
  next
    case False
    show ?thesis
    proof (cases "key \<in> set (map fst (data ?c1))")
      case True
      then have "length (dict_set key v (data ?c1)) = length (data ?c1)"
        by (simp add: length_dict_set)
      with assms e False True show ?thesis
        by (simp add: Cache_setitem_def Let_def bounded_def split: if_splits) auto
    next
      case nin: False
      obtain r2 st2 where l: "evict_loop now ?st1 = (r2, st2)" by (cases "evict_loop now ?st1")
      from nin have "length (dict_set key v al) \<le> Suc (length al)" for al
        by (simp add: length_dict_set)
      with evict_loop_le[OF l] assms e False nin l show ?thesis
        by (cases r2) (auto simp: Cache_setitem_def Let_def bounded_def length_dict_set)
    qed
  qed
qed

lemma update_child_cache:
  "update_child E upd kw v a st = (r, st') \<Longrightarrow> metrics_cache st' = metrics_cache st"
  by (auto simp: update_child_def split: if_splits sum.splits prod.splits)

lemma new_metric_cache:
  "new_metric E k name hlp lk st = (r, st') \<Longrightarrow> metrics_cache st' = metrics_cache st"
  by (auto simp: new_metric_def split: if_splits sum.splits)

lemma make_and_update_cache:
  assumes "make_and_update E k upd name hlp kw v old st = (r, st')"
  shows "metrics_cache st' = metrics_cache st"
proof (cases old)
  case None
  obtain r1 st1 where n: "new_metric E k name hlp (map fst kw) st = (r1, st1)"
    by (cases "new_metric E k name hlp (map fst kw) st")
  from assms None n new_metric_cache[OF n] show ?thesis
    by (cases r1) (auto simp: make_and_update_def old_or_new_def dest: update_child_cache)
next
  case (Some a)
  with assms show ?thesis
    by (auto simp: make_and_update_def old_or_new_def dest: update_child_cache)
qed

lemma setup_metric_cache:
  "setup_metric E m_type name hlp labels v old st = (r, st') \<Longrightarrow> metrics_cache st' = metrics_cache st"
  by (auto simp: setup_metric_def split: pyval.splits if_splits dest: make_and_update_cache)

lemma ttl_getitem_data:
  "ttl_getitem c now key = (r, c') \<Longrightarrow> data c' = data c \<and> maxsize c' = maxsize c"
  by (auto simp: ttl_getitem_def Let_def split: option.splits if_splits)

lemma store_metric_bounded:
  assumes "store_metric E key flds now st = (r, st')" and "bounded st"
  shows "bounded st' \<and> maxsize (metrics_cache st') = maxsize (metrics_cache st)"
proof -
  obtain hlp m_type v labels where f: "flds = (hlp, m_type, v, labels)" by (cases flds) auto
  obtain r0 c0 where g: "ttl_getitem (metrics_cache st) now key = (r0, c0)"
    by (cases "ttl_getitem (metrics_cache st) now key")
  note gd = ttl_getitem_data[OF g]
  define st1 old where "st1 = (if ttl_contains (metrics_cache st) now key then st\<lparr>metrics_cache := c0\<rparr> else st)"
    and "old = (if ttl_contains (metrics_cache st) now key then map_sum id (\<lambda>e. Some (c_instance e)) r0 else Inr None)"
  have b1: "bounded st1" "maxsize (metrics_cache st1) = maxsize (metrics_cache st)"
    using assms(2) gd by (auto simp: st1_def bounded_def)
  show ?thesis
  proof (cases old)
    case (Inl e)
    with assms(1) f g b1 show ?thesis
      by (auto simp: store_metric_def st1_def old_def split: if_splits sum.splits)
  next
    case (Inr oi)
    obtain r2 st2 where s: "setup_metric E m_type key hlp labels v oi st1 = (r2, st2)"
      by (cases "setup_metric E m_type key hlp labels v oi st1")
    from setup_metric_cache[OF s] b1 have b2: "bounded st2"
      "maxsize (metrics_cache st2) = maxsize (metrics_cache st)" by (simp_all add: bounded_def)
    show ?thesis
    proof (cases r2)
      case (Inl e)
      with assms(1) f g s Inr b2 show ?thesis
        by (auto simp: store_metric_def st1_def old_def split: if_splits sum.splits)
    next
      case (Inr a)
      with assms(1) f g s \<open>old = Inr oi\<close> have
        "Cache_setitem key \<lparr>c_instance = a, c_name = key, c_help = hlp,
                 c_type = m_type, c_value = v, c_labels = labels\<rparr> now st2 = (r, st')"
        by (auto simp: store_metric_def st1_def old_def split: if_splits sum.splits)
      from Cache_setitem_bounded[OF this b2(1)] b2 show ?thesis by simp
    qed
  qed
qed

lemma receive_bounded:
  assumes "receive_webhook_request E cfg method title body req now st = (r, st')" and "bounded st"
  shows "bounded st' \<and> maxsize (metrics_cache st') = maxsize (metrics_cache st)"
proof (cases "method = DELETE")
  case True
  obtain r1 st1 where p: "Cache_pop title now st = (r1, st1)" by (cases "Cache_pop title now st")
  from Cache_pop_le[OF p] assms True p show ?thesis
    by (auto simp: receive_webhook_request_def bounded_def split: if_splits sum.splits)
next
  case False
  show ?thesis
  proof (cases "find_handler E (event_handlers cfg) title")
    case (Inl e)
    with assms False show ?thesis by (auto simp: receive_webhook_request_def)
  next
    case (Inr ho)
    show ?thesis
    proof (cases ho)
      case None
      with assms False Inr show ?thesis by (auto simp: receive_webhook_request_def)
    next
      case (Some h)
      show ?thesis
      proof (cases "resolve_fields E h body req")
        case (Inl e)
        with assms False Inr Some show ?thesis by (auto simp: receive_webhook_request_def)
      next
        case rf: (Inr flds)
        obtain r1 st1 where s: "store_metric E title flds now st = (r1, st1)"
          by (cases "store_metric E title flds now st")
        from store_metric_bounded[OF s assms(2)] assms False Inr Some rf s show ?thesis
          by (cases r1) (auto simp: receive_webhook_request_def)
      qed
    qed
  qed
qed

lemma serve_bounded:
  assumes "bounded st"
  shows "bounded (snd (serve E cfg rqs st))
       \<and> maxsize (metrics_cache (snd (serve E cfg rqs st))) = maxsize (metrics_cache st)"
  using assms
proof (induction rqs arbitrary: st)
  case Nil
  then show ?case by simp
next
  case (Cons rq rqs)
  obtain r st1 where s: "serve1 E cfg rq st = (r, st1)" by (cases "serve1 E cfg rq st")
  from receive_bounded[OF s[unfolded serve1_def] Cons.prems]
  have b: "bounded st1" "maxsize (metrics_cache st1) = maxsize (metrics_cache st)" by simp_all
  from Cons.IH[OF b(1)] b s show ?case by (auto split: prod.splits)
qed

lemma del_key_notin: "k \<notin> set (map fst al) \<Longrightarrow> del_key k al = al"
  unfolding del_key_def by (induction al) auto

lemma dict_set_notin: "k \<notin> set (map fst al) \<Longrightarrow> dict_set k v al = al @ [(k, v)]"
  by (induction al) auto

lemma filter_neq_notin: "k \<notin> set ks \<Longrightarrow> filter (\<lambda>x. x \<noteq> k) ks = ks"
  by (induction ks) auto

lemma ttl_expire_noop:
  assumes "list_all (\<lambda>e. now < e) (map snd (chain c))"
  shows "ttl_expire c now = c"
  using assms by (cases "chain c") (auto simp: ttl_expire_def)

lemma cache_filled_live:
  assumes "cache_filled c ks insts lo T ms" and "now < lo + T"
  shows "list_all (\<lambda>e. now < e) (map snd (chain c))"
  using assms by (auto simp: cache_filled_def list_all_iff)

lemma setitem_fresh_room:
  assumes "cache_filled (metrics_cache st) ks insts lo T ms"
    and "k \<notin> set ks" and "lo \<le> now" and "now < lo + T" and "length ks < ms"
  shows "\<exists>st'. Cache_setitem k v now st = (Inr (), st')
          \<and> cache_filled (metrics_cache st') (ks @ [k]) (insts @ [c_instance v]) lo T ms
          \<and> registry st' = registry st \<and> heap st' = heap st"
proof -
  let ?c = "metrics_cache st"
  have ex: "ttl_expire ?c now = ?c"
    by (rule ttl_expire_noop) (rule cache_filled_live[OF assms(1,4)])
  have room: "length (data ?c) < maxsize ?c"
    using assms(1,5) by (auto simp: cache_filled_def dest: arg_cong[where f=length])
  show ?thesis
    unfolding Cache_setitem_room[OF room] ex
    using assms
    by (auto simp: cache_filled_def dict_set_notin del_key_notin filter_neq_notin)
qed

lemma popitem_head:
  assumes "cache_filled (metrics_cache st) (k0 # ks) (a0 # insts) lo T ms"
    and "now < lo + T" and "is_registered st a0"
  shows "\<exists>st'. popitem now st = (Inr (k0, snd (hd (data (metrics_cache st)))), st')
          \<and> cache_filled (metrics_cache st') ks insts lo T ms
          \<and> registry st' = filter (\<lambda>r. fst r \<noteq> a0) (registry st)
          \<and> length (heap st') = length (heap st)"
proof -
  let ?c = "metrics_cache st"
  have ex: "ttl_expire ?c now = ?c"
    by (rule ttl_expire_noop) (rule cache_filled_live[OF assms(1,2)])
  from assms(1) obtain v0 drest e0 crest where
    d: "data ?c = (k0, v0) # drest" and c: "chain ?c = (k0, e0) # crest" and l: "lru ?c = k0 # ks"
    and i: "c_instance v0 = a0" and md: "map fst drest = ks" and mc: "map fst crest = ks"
    and le: "lo + T \<le> e0" and nk: "k0 \<notin> set ks"
    by (auto simp: cache_filled_def Cons_eq_map_conv)
  from le assms(2) have e0: "now < e0" by simp
  from md nk have nd: "k0 \<notin> set (map fst drest)" by simp
  from mc nk have nc: "k0 \<notin> set (map fst crest)" by simp
  have fd: "filter (\<lambda>kv. fst kv \<noteq> k0) drest = drest"
    using nd by (auto simp: filter_id_conv)
  have fc: "filter (\<lambda>kv. fst kv \<noteq> k0) crest = crest"
    using nc by (auto simp: filter_id_conv)
  have fk: "filter (\<lambda>k. k \<noteq> k0) ks = ks" using nk by (rule filter_neq_notin)
  have st: "st\<lparr>metrics_cache := ?c\<rparr> = st" by simp
  show ?thesis
    using assms(1,3) d c l i e0 md mc fd fc fk
    by (auto simp: popitem_def ex st Let_def Cache_pop_def cache_pop_def ttl_contains_def
          ttl_getitem_def ttl_delitem_def unregister_def is_registered_def clear_metric_def
          cache_filled_def del_key_def)
qed

lemma setitem_fresh_full:
  assumes "cache_filled (metrics_cache st) (k0 # ks) (a0 # insts) lo T ms"
    and "length (k0 # ks) = ms"
    and "k \<notin> set (k0 # ks)" and "lo \<le> now" and "now < lo + T" and "is_registered st a0"
  shows "\<exists>st'. Cache_setitem k v now st = (Inr (), st')
          \<and> cache_filled (metrics_cache st') (ks @ [k]) (insts @ [c_instance v]) lo T ms
          \<and> registry st' = filter (\<lambda>r. fst r \<noteq> a0) (registry st)
          \<and> length (heap st') = length (heap st)"
proof -
  let ?c = "metrics_cache st"
  have ex: "ttl_expire ?c now = ?c"
    by (rule ttl_expire_noop) (rule cache_filled_live[OF assms(1,5)])
  have st: "st\<lparr>metrics_cache := ?c\<rparr> = st" by simp
  have ms: "maxsize ?c = ms" and len: "length (data ?c) = ms"
    and keys: "map fst (data ?c) = k0 # ks"
    using assms(1,2) by (auto simp: cache_filled_def dest: arg_cong[where f=length])
  from popitem_head[OF assms(1,5,6)] obtain stp where
    p: "popitem now st = (Inr (k0, snd (hd (data ?c))), stp)"
    and cf: "cache_filled (metrics_cache stp) ks insts lo T ms"
    and rg: "registry stp = filter (\<lambda>r. fst r \<noteq> a0) (registry st)"
    and hp: "length (heap stp) = length (heap st)" by blast
  have room: "length (data (metrics_cache stp)) < maxsize (metrics_cache stp)"
    using cf assms(2) by (auto simp: cache_filled_def dest: arg_cong[where f=length])
  have ev: "evict_loop now st = (Inr (), stp)"
    using room by (subst evict_loop.simps) (simp add: ms len p)
  have kn: "k \<notin> set ks" using assms(3) by simp
  have T: "ttl (metrics_cache stp) = T" using cf by (simp add: cache_filled_def)
  have "Cache_setitem k v now st =
          (Inr (), stp\<lparr>metrics_cache := (metrics_cache stp)
              \<lparr>data := dict_set k v (data (metrics_cache stp)),
               lru := filter (\<lambda>x. x \<noteq> k) (lru (metrics_cache stp)) @ [k],
               chain := del_key k (chain (metrics_cache stp)) @ [(k, now + T)]\<rparr>\<rparr>)"
    using assms(2,3) keys ms ev T
    by (simp add: Cache_setitem_def ex st Let_def)
  then show ?thesis
    using cf rg hp kn assms(4)
    by (auto simp: cache_filled_def dict_set_notin del_key_notin filter_neq_notin)
qed

lemma setup_new:
  assumes "setup_metric E mt name hlp labels v None st = (Inr a, st2)"
  shows "a = length (heap st) \<and> length (heap st2) = Suc (length (heap st))
       \<and> map fst (registry st2) = map fst (registry st) @ [a]
       \<and> metrics_cache st2 = metrics_cache st"
proof -
  have mu: "make_and_update E k upd name hlp kw v None st = (Inr a, st2) \<Longrightarrow> ?thesis" for k upd kw
    by (auto simp: make_and_update_def old_or_new_def new_metric_def register_def
          update_child_def Let_def
        split: if_splits sum.splits prod.splits)
  from assms show ?thesis
    by (auto simp: setup_metric_def split: pyval.splits if_splits dest: mu)
qed

lemma serve1_ok_store:
  assumes "serve1 E cfg rq st = (Inr resp, st')" and "r_method rq \<noteq> DELETE"
  shows "resp = Response (PStr []) 200
       \<and> (\<exists>flds. store_metric E (r_title rq) flds (r_time rq) st = (Inr (), st'))
       \<or> (\<exists>body. resp = Response body 404)"
  using assms
  by (auto simp: serve1_def receive_webhook_request_def not_found_response_def
           split: sum.splits option.splits prod.splits)

lemma store_fresh_split:
  assumes "store_metric E k flds now st = (Inr (), st')"
    and "k \<notin> set (map fst (chain (metrics_cache st)))"
  obtains a st2 v where
    "setup_metric E (fst (snd flds)) k (fst flds) (snd (snd (snd flds)))
        (fst (snd (snd flds))) None st = (Inr a, st2)"
    and "c_instance v = a" and "Cache_setitem k v now st2 = (Inr (), st')"
proof -
  from assms(2) have "map_of (chain (metrics_cache st)) k = None"
    by (simp add: map_of_eq_None_iff)
  then have nc: "\<not> ttl_contains (metrics_cache st) now k" by (simp add: ttl_contains_def)
  obtain hlp mt v labels where f: "flds = (hlp, mt, v, labels)" by (cases flds) auto
  from assms(1) nc f obtain a st2 where
    s: "setup_metric E mt k hlp labels v None st = (Inr a, st2)"
    and c: "Cache_setitem k \<lparr>c_instance = a, c_name = k, c_help = hlp,
                 c_type = mt, c_value = v, c_labels = labels\<rparr> now st2 = (Inr (), st')"
    by (auto simp: store_metric_def split: sum.splits prod.splits)
  show thesis
    by (rule that[OF _ _ c]) (use s f in simp_all)
qed

lemma Cache_setitem_ok_maxsize:
  "Cache_setitem k v now st = (Inr (), st') \<Longrightarrow> 1 \<le> maxsize (metrics_cache st)"
  by (auto simp: Cache_setitem_def Let_def ttl_expire_shrinks split: if_splits)

lemma filled_step:
  assumes "filled st ks n lo T ms" and "insert_request lo T rq" and "r_title rq \<notin> set ks"
    and "serve1 E cfg rq st = (ok200, st')"
  shows "if length ks < ms then filled st' (ks @ [r_title rq]) n lo T ms
         else filled st' (tl ks @ [r_title rq]) (Suc n) lo T ms"
proof -
  let ?k = "r_title rq" and ?now = "r_time rq"
  from assms(2) have m: "r_method rq \<noteq> DELETE" and lo: "lo \<le> ?now" and hi: "?now < lo + T"
    by (simp_all add: insert_request_def)
  from assms(1) have cf: "cache_filled (metrics_cache st) ks [n..<n + length ks] lo T ms"
    and le: "length ks \<le> ms" and hl: "length (heap st) = n + length ks"
    and rg: "list_all (is_registered st) [n..<n + length ks]"
    and ur: "list_all (\<lambda>a. \<not> is_registered st a) [0..<n]"
    by (simp_all add: filled_def)
  from serve1_ok_store[OF assms(4)[unfolded ok200_def] m] obtain flds where
    sm: "store_metric E ?k flds ?now st = (Inr (), st')" by auto
  have kc: "?k \<notin> set (map fst (chain (metrics_cache st)))"
    using cf assms(3) by (simp add: cache_filled_def)
  from store_fresh_split[OF sm kc] obtain a st2 v where
    su: "setup_metric E (fst (snd flds)) ?k (fst flds) (snd (snd (snd flds)))
           (fst (snd (snd flds))) None st = (Inr a, st2)"
    and ia: "c_instance v = a" and cs: "Cache_setitem ?k v ?now st2 = (Inr (), st')" by blast
  from setup_new[OF su] hl have a: "a = n + length ks"
    and hl2: "length (heap st2) = Suc (n + length ks)"
    and rg2: "map fst (registry st2) = map fst (registry st) @ [a]"
    and c2: "metrics_cache st2 = metrics_cache st" by simp_all
  have cf2: "cache_filled (metrics_cache st2) ks [n..<n + length ks] lo T ms"
    using cf c2 by simp
  have reg2: "is_registered st2 b = (is_registered st b \<or> b = a)" for b
    by (auto simp: is_registered_def rg2)
  show ?thesis
  proof (cases "length ks < ms")
    case True
    from setitem_fresh_room[OF cf2 assms(3) lo hi True, of v] cs obtain
      cf': "cache_filled (metrics_cache st') (ks @ [?k]) ([n..<n + length ks] @ [c_instance v]) lo T ms"
      and r': "registry st' = registry st2" and h': "heap st' = heap st2" by auto
    have reg': "is_registered st' b = (is_registered st b \<or> b = a)" for b
      using reg2[of b] by (simp add: is_registered_def r')
    have "filled st' (ks @ [?k]) n lo T ms"
      unfolding filled_def
      using cf' ia a True hl2 h' rg ur
      by (auto simp: reg' list_all_iff)
    with True show ?thesis by simp
  next
    case False
    with le have len: "length ks = ms" by simp
    from Cache_setitem_ok_maxsize[OF cs] cf2 have "1 \<le> ms" by (simp add: cache_filled_def)
    with len obtain k0 ks' where ks: "ks = k0 # ks'" by (cases ks) auto
    have "n < n + length ks" using ks by simp
    then have up: "[n..<n + length ks] = n # [Suc n..<n + length ks]"
      by (rule upt_conv_Cons)
    have r0: "is_registered st2 n" using rg unfolding up by (simp add: reg2)
    define insts where "insts = [Suc n..<n + length ks]"
    have cf3: "cache_filled (metrics_cache st2) (k0 # ks') (n # insts) lo T ms"
      using cf2 unfolding up insts_def[symmetric] by (simp add: ks)
    have l3: "length (k0 # ks') = ms" using len ks by simp
    have n3: "?k \<notin> set (k0 # ks')" using assms(3) ks by simp
    from setitem_fresh_full[OF cf3 l3 n3 lo hi r0, of v] cs
    obtain cf': "cache_filled (metrics_cache st') (ks' @ [?k])
                   ([Suc n..<n + length ks] @ [c_instance v]) lo T ms"
      and r': "registry st' = filter (\<lambda>r. fst r \<noteq> n) (registry st2)"
      and h': "length (heap st') = length (heap st2)" by (auto simp: insts_def)
    have reg': "is_registered st' b = ((is_registered st b \<or> b = a) \<and> b \<noteq> n)" for b
      using reg2[of b] by (auto simp: is_registered_def r')
    have "[Suc n..<n + length ks] @ [a] = [Suc n..<Suc n + length (ks' @ [?k])]"
      using a ks by simp
    then have "filled st' (ks' @ [?k]) (Suc n) lo T ms"
      unfolding filled_def
      using cf' ia a len ks hl2 h' rg ur
      by (auto simp: reg' list_all_iff)
    with False ks show ?thesis by simp
  qed
qed

lemma drop_tl_append:
  "ks \<noteq> [] \<Longrightarrow> drop (Suc m) (ks @ xs) = drop m (tl ks @ xs)"
  by (cases ks) auto

lemma serve_filled:
  assumes "filled st ks n lo T ms"
    and "list_all (insert_request lo T) rqs"
    and "distinct (ks @ map r_title rqs)"
    and "fst (serve E cfg rqs st) = replicate (length rqs) ok200"
  shows "filled (snd (serve E cfg rqs st))
           (drop (length ks + length rqs - ms) (ks @ map r_title rqs))
           (n + (length ks + length rqs - ms)) lo T ms"
  using assms
proof (induction rqs arbitrary: st ks n)
  case Nil
  then show ?case by (simp add: filled_def)
next
  case (Cons rq rqs)
  obtain r st1 where s1: "serve1 E cfg rq st = (r, st1)" by (cases "serve1 E cfg rq st")
  obtain rs st2 where s2: "serve E cfg rqs st1 = (rs, st2)" by (cases "serve E cfg rqs st1")
  from Cons.prems(4) s1 s2 have r: "r = ok200" and rs: "rs = replicate (length rqs) ok200"
    by simp_all
  from Cons.prems(2) have ir: "insert_request lo T rq" and irs: "list_all (insert_request lo T) rqs"
    by simp_all
  from Cons.prems(3) have nk: "r_title rq \<notin> set ks" by auto
  from Cons.prems(1) have le: "length ks \<le> ms" by (simp add: filled_def)
  note step = filled_step[OF Cons.prems(1) ir nk s1[unfolded r]]
  have f2: "fst (serve E cfg rqs st1) = replicate (length rqs) ok200" using s2 rs by simp
  show ?case
  proof (cases "length ks < ms")
    case True
    with step have f: "filled st1 (ks @ [r_title rq]) n lo T ms" by simp
    have d: "distinct ((ks @ [r_title rq]) @ map r_title rqs)" using Cons.prems(3) by simp
    from Cons.IH[OF f irs d f2] s1 s2 show ?thesis by simp
  next
    case False
    with le have len: "length ks = ms" by simp
    from False step have f: "filled st1 (tl ks @ [r_title rq]) (Suc n) lo T ms" by simp
    have ne: "ks \<noteq> []"
    proof
      assume "ks = []"
      with f len show False by (simp add: filled_def)
    qed
    have d: "distinct ((tl ks @ [r_title rq]) @ map r_title rqs)"
      using Cons.prems(3) ne by (cases ks) auto
    have l: "length (tl ks @ [r_title rq]) = ms" using len ne by (cases ks) auto
    have e1: "length (tl ks @ [r_title rq]) + length rqs - ms = length rqs" using l by simp
    have e2: "length ks + length (rq # rqs) - ms = Suc (length rqs)" using len by simp
    have dr: "drop (Suc (length rqs)) (ks @ map r_title (rq # rqs))
              = drop (length rqs) ((tl ks @ [r_title rq]) @ map r_title rqs)"
      using ne by (cases ks) simp_all
    have sn: "snd (serve E cfg (rq # rqs) st) = snd (serve E cfg rqs st1)"
      using s1 s2 by simp
    from Cons.IH[OF f irs d f2] show ?thesis
      unfolding e1 e2 dr sn by simp
  qed
qed

lemma length_fst_serve: "length (fst (serve E cfg rqs st)) = length rqs"
  by (induction rqs arbitrary: st) (simp_all add: case_prod_unfold)

lemma serve_append:
  "serve E cfg (xs @ ys) st =
     (fst (serve E cfg xs st) @ fst (serve E cfg ys (snd (serve E cfg xs st))),
      snd (serve E cfg ys (snd (serve E cfg xs st))))"
  by (induction xs arbitrary: st) (auto split: prod.splits)

lemma serve_prefix_ok:
  assumes "fst (serve E cfg (xs @ ys) st) = replicate (length (xs @ ys)) ok200"
  shows "fst (serve E cfg xs st) = replicate (length xs) ok200"
proof -
  have "fst (serve E cfg xs st) = take (length xs) (fst (serve E cfg (xs @ ys) st))"
    by (simp add: serve_append length_fst_serve)
  with assms show ?thesis by simp
qed

lemma filled_init: "filled (init_state ms T) [] 0 lo T ms"
  by (simp add: filled_def cache_filled_def init_state_def)

lemma filled_entries:
  assumes "filled st ks n lo T ms"
  shows "map (\<lambda>kv. (fst kv, c_instance (snd kv))) (data (metrics_cache st))
           = zip ks [n..<n + length ks]"
proof -
  have "map (\<lambda>kv. (fst kv, c_instance (snd kv))) xs
          = zip (map fst xs) (map (\<lambda>kv. c_instance (snd kv)) xs)" for xs :: "(string \<times> cached) list"
    by (induction xs) auto
  with assms show ?thesis by (simp add: filled_def cache_filled_def)
qed

text \<open>
  C7. In every state reached from the initial state by serving requests, the cache holds
  at most \<open>maxsize\<close> entries. When \<open>maxsize + 1\<close> create/update requests for distinct keys
  are accepted, all within one time to live (so nothing expires): after the first
  \<open>maxsize\<close> of them the cache holds their keys and every instance is registered; after the
  last, the cache holds exactly the \<open>maxsize\<close> keys after the first, their instances are
  registered, and the instance of the first key, the least recently used, is not.
\<close>

theorem cache_bound_and_lru_eviction:
  "length (data (metrics_cache (snd (serve E cfg rqs (init_state ms T))))) \<le> ms
   \<and> (length ins = ms + 1 \<and> distinct (map r_title ins) \<and> list_all (insert_request lo T) ins
       \<and> fst (serve E cfg ins (init_state ms T)) = replicate (ms + 1) ok200
      \<longrightarrow> map (\<lambda>kv. (fst kv, c_instance (snd kv)))
             (data (metrics_cache (snd (serve E cfg (butlast ins) (init_state ms T)))))
            = zip (butlast (map r_title ins)) [0..<ms]
          \<and> list_all (is_registered (snd (serve E cfg (butlast ins) (init_state ms T)))) [0..<ms]
          \<and> map (\<lambda>kv. (fst kv, c_instance (snd kv)))
               (data (metrics_cache (snd (serve E cfg ins (init_state ms T)))))
            = zip (tl (map r_title ins)) [1..<ms + 1]
          \<and> length (data (metrics_cache (snd (serve E cfg ins (init_state ms T))))) = ms
          \<and> list_all (is_registered (snd (serve E cfg ins (init_state ms T)))) [1..<ms + 1]
          \<and> \<not> is_registered (snd (serve E cfg ins (init_state ms T))) 0)"
proof (intro conjI impI)
  have b: "bounded (init_state ms T)" by (simp add: bounded_def init_state_def)
  from serve_bounded[OF b, of E cfg rqs]
  show "length (data (metrics_cache (snd (serve E cfg rqs (init_state ms T))))) \<le> ms"
    by (simp add: bounded_def init_state_def)
next
  assume a: "length ins = ms + 1 \<and> distinct (map r_title ins) \<and> list_all (insert_request lo T) ins
       \<and> fst (serve E cfg ins (init_state ms T)) = replicate (ms + 1) ok200"
  let ?i = "init_state ms T"
  let ?pre = "butlast ins"
  from a have ne: "ins \<noteq> []" by auto
  then have sp: "ins = ?pre @ [last ins]" by simp
  have lp: "length ?pre = ms" using a by simp
  have okp: "fst (serve E cfg ?pre ?i) = replicate (length ?pre) ok200"
    by (rule serve_prefix_ok[where ys="[last ins]"]) (use a sp in simp)
  have ip: "list_all (insert_request lo T) ?pre"
    using a by (auto simp: list_all_iff dest: in_set_butlastD)
  have dp: "distinct ([] @ map r_title ?pre)"
    using a by (simp add: map_butlast distinct_butlast)
  from serve_filled[OF filled_init ip dp okp] lp
  have fb: "filled (snd (serve E cfg ?pre ?i)) (map r_title ?pre) 0 lo T ms" by simp
  have da: "distinct ([] @ map r_title ins)" using a by simp
  have oka: "fst (serve E cfg ins ?i) = replicate (length ins) ok200" using a by simp
  have ia: "list_all (insert_request lo T) ins" using a by simp
  from serve_filled[OF filled_init ia da oka] a
  have fa: "filled (snd (serve E cfg ins ?i)) (tl (map r_title ins)) 1 lo T ms"
    by (simp add: drop_Suc)
  have lt: "length (tl (map r_title ins)) = ms" using a by simp
  show "map (\<lambda>kv. (fst kv, c_instance (snd kv))) (data (metrics_cache (snd (serve E cfg ?pre ?i))))
            = zip (butlast (map r_title ins)) [0..<ms]"
    using filled_entries[OF fb] lp by (simp add: map_butlast del: upt_Suc)
  show "list_all (is_registered (snd (serve E cfg ?pre ?i))) [0..<ms]"
    using fb lp by (simp add: filled_def del: upt_Suc)
  show "map (\<lambda>kv. (fst kv, c_instance (snd kv))) (data (metrics_cache (snd (serve E cfg ins ?i))))
            = zip (tl (map r_title ins)) [1..<ms + 1]"
    using filled_entries[OF fa] lt by (simp del: upt_Suc)
  show "length (data (metrics_cache (snd (serve E cfg ins ?i)))) = ms"
    using fa lt by (auto simp: filled_def cache_filled_def dest: arg_cong[where f=length])
  show "list_all (is_registered (snd (serve E cfg ins ?i))) [1..<ms + 1]"
    using fa lt by (simp add: filled_def del: upt_Suc)
  show "\<not> is_registered (snd (serve E cfg ins ?i)) 0"
    using fa by (simp add: filled_def)
qed

text \<open>A cache of size two and the keys \<^verbatim>\<open>m1\<close>, \<^verbatim>\<open>m2\<close>, \<^verbatim>\<open>m3\<close>.\<close>

theorem cache_bound_and_lru_eviction_witness:
  "length three_keys = 2 + 1 \<and> distinct (map r_title three_keys)
   \<and> list_all (insert_request 0 600) three_keys
   \<and> fst (serve lib0 cfg_v three_keys (init_state 2 600)) = replicate (2 + 1) ok200
   \<and> length (data (metrics_cache (snd (serve lib0 cfg_v three_keys (init_state 2 600))))) \<le> 2
   \<and> map (\<lambda>kv. (fst kv, c_instance (snd kv)))
        (data (metrics_cache (snd (serve lib0 cfg_v (butlast three_keys) (init_state 2 600)))))
       = [(''m1'', 0), (''m2'', 1)]
   \<and> list_all (is_registered (snd (serve lib0 cfg_v (butlast three_keys) (init_state 2 600)))) [0, 1]
   \<and> map (\<lambda>kv. (fst kv, c_instance (snd kv)))
        (data (metrics_cache (snd (serve lib0 cfg_v three_keys (init_state 2 600)))))
       = [(''m2'', 1), (''m3'', 2)]
   \<and> list_all (is_registered (snd (serve lib0 cfg_v three_keys (init_state 2 600)))) [1, 2]
   \<and> \<not> is_registered (snd (serve lib0 cfg_v three_keys (init_state 2 600))) 0"
proof -
  have h1: "length three_keys = 2 + 1" by (simp add: three_keys_def)
  have h2: "distinct (map r_title three_keys)" by (simp add: three_keys_def post_rq_def)
  have h3: "list_all (insert_request 0 600) three_keys"
    by (simp add: three_keys_def post_rq_def insert_request_def)
  have h4: "fst (serve lib0 cfg_v three_keys (init_state 2 600)) = replicate (2 + 1) ok200"
    by code_simp
  have t: "map r_title three_keys = [''m1'', ''m2'', ''m3'']"
    by (simp add: three_keys_def post_rq_def)
  have u: "[0..<2] = [0, 1::nat]" "[1..<2 + 1] = [1, 2::nat]" by (simp_all add: upt_rec)
  note inst = cache_bound_and_lru_eviction[of lib0 cfg_v three_keys 2 600 three_keys 0,
                unfolded u]
  from inst h1 h2 h3 h4 show ?thesis by (simp add: t)
qed

end
